theory Spec2Isabelle
  imports Main "HOL-Library.AList" "HOL-Library.Sublist"
begin

section \<open>Python values and the operations the cog applies to them\<close>

text \<open>
  The cog works on whatever \<^verbatim>\<open>json.load\<close> returns, so the model has one type of
  Python values: \<^verbatim>\<open>None\<close>, booleans, integers, strings, lists and dictionaries with
  string keys (association lists in insertion order, as a Python \<^verbatim>\<open>dict\<close> keeps
  them). Floating-point numbers are left out. Strings are byte strings (UTF-8).
\<close>

datatype pyval =
    PyNone
  | PyBool bool
  | PyInt int
  | PyStr string
  | PyList "pyval list"
  | PyDict "(string \<times> pyval) list"

datatype error =
    JSONDecodeError
  | UnicodeDecodeError
  | RecursionError
  | TypeError
  | AttributeError
  | KeyError
  | ValueError
  | IndexError
  | Forbidden
  | HTTPException

subsection \<open>\<^verbatim>\<open>str\<close> of an integer\<close>

definition digit_char :: "nat \<Rightarrow> char" where
  "digit_char d = char_of (48 + d)"

fun dec :: "nat \<Rightarrow> string" where
  "dec n = (if n < 10 then [digit_char n] else dec (n div 10) @ [digit_char (n mod 10)])"

declare dec.simps [simp del]

definition str_int :: "int \<Rightarrow> string" where
  "str_int i = (if i < 0 then CHR ''-'' # dec (nat (- i)) else dec (nat i))"

subsection \<open>Membership, subscription, item assignment and \<^verbatim>\<open>append\<close>\<close>

text \<open>\<^verbatim>\<open>k in obj\<close> for a string \<open>k\<close>: key membership in a dictionary, element
  membership in a list, substring test in a string, \<^verbatim>\<open>TypeError\<close> otherwise.\<close>

fun py_in :: "string \<Rightarrow> pyval \<Rightarrow> error + bool" where
  "py_in k (PyDict d) = Inr (map_of d k \<noteq> None)"
| "py_in k (PyList xs) = Inr (PyStr k \<in> set xs)"
| "py_in k (PyStr s) = Inr (sublist k s)"
| "py_in k PyNone = Inl TypeError"
| "py_in k (PyBool b) = Inl TypeError"
| "py_in k (PyInt i) = Inl TypeError"

text \<open>\<^verbatim>\<open>obj[k]\<close> for a string \<open>k\<close>: only a dictionary can be subscripted by a string.\<close>

fun py_getitem :: "pyval \<Rightarrow> string \<Rightarrow> error + pyval" where
  "py_getitem (PyDict d) k = (case map_of d k of None \<Rightarrow> Inl KeyError | Some v \<Rightarrow> Inr v)"
| "py_getitem v k = Inl TypeError"

text \<open>\<^verbatim>\<open>obj[k] = v\<close>: replaces the value of an existing key in place, puts a new key last.\<close>

fun py_setitem :: "pyval \<Rightarrow> string \<Rightarrow> pyval \<Rightarrow> error + pyval" where
  "py_setitem (PyDict d) k v = Inr (PyDict (AList.update k v d))"
| "py_setitem obj k v = Inl TypeError"

text \<open>\<^verbatim>\<open>obj.append(x)\<close>: only lists have the method.\<close>

fun py_append :: "pyval \<Rightarrow> pyval \<Rightarrow> error + pyval" where
  "py_append (PyList xs) x = Inr (PyList (xs @ [x]))"
| "py_append obj x = Inl AttributeError"

section \<open>The configuration file\<close>

text \<open>
  \<^verbatim>\<open>CONFIG_FILE\<close> either does not exist (\<open>None\<close>) or holds a text. A text is the
  rendering of a JSON document, which \<^verbatim>\<open>json.load\<close> reads back; or the empty file that
  \<^verbatim>\<open>open(CONFIG_FILE, "w")\<close> leaves before anything is written, on which \<^verbatim>\<open>json.load\<close>
  raises \<^verbatim>\<open>JSONDecodeError\<close>; or any other content that \<^verbatim>\<open>json.load\<close> cannot read,
  together with the exception it raises on it: \<^verbatim>\<open>JSONDecodeError\<close> on a text that is
  not a JSON document, \<^verbatim>\<open>UnicodeDecodeError\<close> on bytes that are not text in the file's
  encoding, \<^verbatim>\<open>RecursionError\<close> on a document nested too deeply, and so on.
\<close>

datatype file_text = Json_text pyval | Empty_text | Unreadable_text error

type_synonym fs = "file_text option"

fun json_load :: "file_text \<Rightarrow> error + pyval" where
  "json_load (Json_text v) = Inr v"
| "json_load Empty_text = Inl JSONDecodeError"
| "json_load (Unreadable_text e) = Inl e"

definition open_w :: "fs \<Rightarrow> fs" where
  "open_w f = Some Empty_text"

definition json_dump :: "pyval \<Rightarrow> fs \<Rightarrow> fs" where
  "json_dump v f = Some (Json_text v)"

subsection \<open>\<^verbatim>\<open>ReactionRole.save_config\<close>\<close>

text \<open>Lines 119 to 123 read the configuration, the empty dictionary when there is no
  file. Lines 125 to 131 append the button to the list of its guild and message; the
  nested list is changed in place, which the model writes back into the dictionaries
  around it. Nothing is written to the file yet.\<close>

definition read_config :: "fs \<Rightarrow> error + pyval" where
  "read_config f = (case f of Some t \<Rightarrow> json_load t | None \<Rightarrow> Inr (PyDict []))"

definition updated_config :: "fs \<Rightarrow> int \<Rightarrow> int \<Rightarrow> pyval \<Rightarrow> error + pyval" where
  "updated_config f guild_id message_id button =
    (case read_config f of
       Inl e \<Rightarrow> Inl e
     | Inr config \<Rightarrow>
    (case py_in (str_int guild_id) config of
       Inl e \<Rightarrow> Inl e
     | Inr has_guild \<Rightarrow>
    (case (if \<not> has_guild then py_setitem config (str_int guild_id) (PyDict []) else Inr config) of
       Inl e \<Rightarrow> Inl e
     | Inr config1 \<Rightarrow>
    (case py_getitem config1 (str_int guild_id) of
       Inl e \<Rightarrow> Inl e
     | Inr messages \<Rightarrow>
    (case py_in (str_int message_id) messages of
       Inl e \<Rightarrow> Inl e
     | Inr has_message \<Rightarrow>
    (case (if \<not> has_message then py_setitem messages (str_int message_id) (PyList [])
           else Inr messages) of
       Inl e \<Rightarrow> Inl e
     | Inr messages1 \<Rightarrow>
    (case py_getitem messages1 (str_int message_id) of
       Inl e \<Rightarrow> Inl e
     | Inr buttons \<Rightarrow>
    (case py_append buttons button of
       Inl e \<Rightarrow> Inl e
     | Inr buttons1 \<Rightarrow>
    (case py_setitem messages1 (str_int message_id) buttons1 of
       Inl e \<Rightarrow> Inl e
     | Inr messages2 \<Rightarrow> py_setitem config1 (str_int guild_id) messages2)))))))))"

text \<open>Lines 133 and 134 open the file for writing, which empties it, and dump the
  whole configuration into it.\<close>

definition save_config :: "fs \<Rightarrow> int \<Rightarrow> int \<Rightarrow> pyval \<Rightarrow> error + fs" where
  "save_config f guild_id message_id button =
    (case updated_config f guild_id message_id button of
       Inl e \<Rightarrow> Inl e
     | Inr config \<Rightarrow> Inr (json_dump config (open_w f)))"

section \<open>Buttons and views\<close>

subsection \<open>\<^verbatim>\<open>str\<close> of a Python value\<close>

text \<open>\<^verbatim>\<open>str\<close> of a string is the string; of anything else it is what \<^verbatim>\<open>repr\<close> prints,
  with strings inside lists and dictionaries quoted and escaped.\<close>

definition hex_char :: "nat \<Rightarrow> char" where
  "hex_char d = ''0123456789abcdef'' ! d"

definition repr_char :: "char \<Rightarrow> char \<Rightarrow> string" where
  "repr_char quote c =
    (if c = quote \<or> c = CHR 0x5C then [CHR 0x5C, c]
     else if c = CHR 0x09 then [CHR 0x5C, CHR ''t'']
     else if c = CHR 0x0A then [CHR 0x5C, CHR ''n'']
     else if c = CHR 0x0D then [CHR 0x5C, CHR ''r'']
     else if (of_char c :: nat) < 32 \<or> (of_char c :: nat) = 127
       then [CHR 0x5C, CHR ''x'', hex_char (of_char c div 16), hex_char (of_char c mod 16)]
     else [c])"

definition repr_str :: "string \<Rightarrow> string" where
  "repr_str s =
    (let quote = (if CHR 0x27 \<in> set s \<and> CHR 0x22 \<notin> set s then CHR 0x22 else CHR 0x27)
     in quote # concat (map (repr_char quote) s) @ [quote])"

fun join :: "string \<Rightarrow> string list \<Rightarrow> string" where
  "join sep [] = []"
| "join sep [x] = x"
| "join sep (x # y # ys) = x @ sep @ join sep (y # ys)"

fun py_repr :: "pyval \<Rightarrow> string"
  and py_repr_list :: "pyval list \<Rightarrow> string list"
  and py_repr_items :: "(string \<times> pyval) list \<Rightarrow> string list" where
  "py_repr PyNone = ''None''"
| "py_repr (PyBool b) = (if b then ''True'' else ''False'')"
| "py_repr (PyInt i) = str_int i"
| "py_repr (PyStr s) = repr_str s"
| "py_repr (PyList xs) = ''['' @ join '', '' (py_repr_list xs) @ '']''"
| "py_repr (PyDict d) = ''{'' @ join '', '' (py_repr_items d) @ ''}''"
| "py_repr_list [] = []"
| "py_repr_list (x # xs) = py_repr x # py_repr_list xs"
| "py_repr_items [] = []"
| "py_repr_items (kv # kvs) = (repr_str (fst kv) @ '': '' @ py_repr (snd kv)) # py_repr_items kvs"

definition py_str :: "pyval \<Rightarrow> string" where
  "py_str v = (case v of PyStr s \<Rightarrow> s | _ \<Rightarrow> py_repr v)"

subsection \<open>\<^verbatim>\<open>int\<close> of a string\<close>

text \<open>
  What the builtin \<^verbatim>\<open>int\<close> makes of a string depends on the interpreter beyond the
  source: its Unicode tables decide which characters outside ASCII count as white space
  and as decimal digits, and its settings bound the number of digits. The functions of
  the cog that call \<^verbatim>\<open>int\<close> therefore take the conversion as a parameter \<open>to_int\<close>, with
  \<open>None\<close> for a \<^verbatim>\<open>ValueError\<close>, and what is proved of them holds for every conversion.

  \<open>py_int\<close> is the conversion of a string of ASCII characters, with no bound on the
  digits: surrounding white space (tab, line feed, vertical tab, form feed, carriage
  return, space), one sign, and decimal digits with single underscores between them. It
  is the conversion used where a run is evaluated on given links and keys.
\<close>

definition is_space :: "char \<Rightarrow> bool" where
  "is_space c = ((9 \<le> (of_char c :: nat) \<and> (of_char c :: nat) \<le> 13)
     \<or> (of_char c :: nat) = 32)"

definition trim_space :: "string \<Rightarrow> string" where
  "trim_space s = rev (dropWhile is_space (rev (dropWhile is_space s)))"

definition is_digit :: "char \<Rightarrow> bool" where
  "is_digit c = (48 \<le> (of_char c :: nat) \<and> (of_char c :: nat) \<le> 57)"

definition digit_val :: "char \<Rightarrow> nat" where
  "digit_val c = of_char c - 48"

fun digits_value :: "string \<Rightarrow> nat \<Rightarrow> nat option" where
  "digits_value [] acc = Some acc"
| "digits_value (c # cs) acc =
    (if is_digit c then digits_value cs (10 * acc + digit_val c)
     else if c = CHR ''_'' then
       (case cs of [] \<Rightarrow> None | d # ds \<Rightarrow> if is_digit d then digits_value cs acc else None)
     else None)"

definition unsigned_value :: "string \<Rightarrow> nat option" where
  "unsigned_value s =
    (case s of [] \<Rightarrow> None | c # cs \<Rightarrow> if is_digit c then digits_value s 0 else None)"

definition py_int :: "string \<Rightarrow> int option" where
  "py_int s =
    (case trim_space s of
       [] \<Rightarrow> None
     | c # cs \<Rightarrow>
         if c = CHR ''-'' then map_option (\<lambda>n. - int n) (unsigned_value cs)
         else if c = CHR ''+'' then map_option int (unsigned_value cs)
         else map_option int (unsigned_value (c # cs)))"

subsection \<open>\<^verbatim>\<open>discord.ButtonStyle\<close>\<close>

datatype ButtonStyle = primary | secondary | success | danger | link | premium

text \<open>The names under which \<^verbatim>\<open>getattr(discord.ButtonStyle, name)\<close> finds a style:
  the members of the enumeration and their aliases, among them the four names of
  \<^verbatim>\<open>colour_map\<close>. A string that names no attribute raises \<^verbatim>\<open>AttributeError\<close>, and an
  attribute name that is no string raises \<^verbatim>\<open>TypeError\<close>. The other attributes of the
  class (its methods and the names Python gives every class) are left out.\<close>

definition ButtonStyle_names :: "(string \<times> ButtonStyle) list" where
  "ButtonStyle_names =
    [(''primary'', primary), (''secondary'', secondary), (''success'', success),
     (''danger'', danger), (''link'', link), (''premium'', premium),
     (''blurple'', primary), (''grey'', secondary), (''gray'', secondary),
     (''green'', success), (''red'', danger), (''url'', link)]"

fun getattr_ButtonStyle :: "pyval \<Rightarrow> error + ButtonStyle" where
  "getattr_ButtonStyle (PyStr name) =
    (case map_of ButtonStyle_names name of None \<Rightarrow> Inl AttributeError | Some st \<Rightarrow> Inr st)"
| "getattr_ButtonStyle v = Inl TypeError"

subsection \<open>\<^verbatim>\<open>ReactionRoleButton\<close>\<close>

text \<open>Lines 17 to 19. The checks that discord.py itself makes on a button and on a
  view (the kind of the emoji, the number of items of a view) are not part of the
  model.\<close>

record rr_button =
  style :: ButtonStyle
  emoji :: pyval
  custom_id :: string
  role_id :: pyval

definition ReactionRoleButton :: "pyval \<Rightarrow> pyval \<Rightarrow> ButtonStyle \<Rightarrow> rr_button" where
  "ReactionRoleButton rid em colour =
    \<lparr>style = colour, emoji = em, custom_id = py_str rid, role_id = rid\<rparr>"

text \<open>
  \<^verbatim>\<open>callback\<close>. A guild is the list of the ids of its roles and \<^verbatim>\<open>user.roles\<close> the list
  of the ids of the user's roles (roles compare by id). \<^verbatim>\<open>guild.get_role\<close> is a
  dictionary lookup: it returns \<^verbatim>\<open>None\<close> for an unknown key and raises \<^verbatim>\<open>TypeError\<close>
  for an unhashable one, outside the \<^verbatim>\<open>try\<close> block. \<open>api\<close> is the exception, if any,
  that Discord answers the role change with.
\<close>

fun get_role :: "int list \<Rightarrow> pyval \<Rightarrow> error + int option" where
  "get_role guild (PyInt i) = Inr (if i \<in> set guild then Some i else None)"
| "get_role guild (PyBool b) =
    Inr (if (if b then 1 else 0) \<in> set guild then Some (if b then 1 else 0) else None)"
| "get_role guild PyNone = Inr None"
| "get_role guild (PyStr s) = Inr None"
| "get_role guild (PyList xs) = Inl TypeError"
| "get_role guild (PyDict d) = Inl TypeError"

datatype role_call = add_roles | remove_roles

datatype reply = Role_Removed | Role_Assigned | Permission_Error | Error_Reply

definition api_reply :: "reply \<Rightarrow> error option \<Rightarrow> reply" where
  "api_reply done api =
    (case api of None \<Rightarrow> done | Some Forbidden \<Rightarrow> Permission_Error | Some e \<Rightarrow> Error_Reply)"

definition callback ::
  "rr_button \<Rightarrow> int list \<Rightarrow> int list \<Rightarrow> error option \<Rightarrow> error + (role_call \<times> reply)" where
  "callback self guild user_roles api =
    (case get_role guild (role_id self) of
       Inl e \<Rightarrow> Inl e
     | Inr role \<Rightarrow>
         Inr (if (case role of None \<Rightarrow> False | Some r \<Rightarrow> r \<in> set user_roles)
              then (remove_roles, api_reply Role_Removed api)
              else (add_roles,
                    case role of None \<Rightarrow> Error_Reply | Some r \<Rightarrow> api_reply Role_Assigned api)))"

section \<open>The cog\<close>

text \<open>What the cog changes in the bot: the persistent views registered with
  \<^verbatim>\<open>bot.add_view\<close>, each with its message id, and the cogs added with \<^verbatim>\<open>bot.add_cog\<close>.\<close>

record bot =
  views :: "(int \<times> rr_button list) list"
  cogs :: "string list"

definition add_view :: "bot \<Rightarrow> rr_button list \<Rightarrow> int \<Rightarrow> bot" where
  "add_view b view message_id = b\<lparr>views := views b @ [(message_id, view)]\<rparr>"

subsection \<open>\<^verbatim>\<open>ReactionRole.load_config\<close>\<close>

fun py_items :: "pyval \<Rightarrow> error + (string \<times> pyval) list" where
  "py_items (PyDict d) = Inr d"
| "py_items v = Inl AttributeError"

text \<open>What a \<^verbatim>\<open>for\<close> loop runs over: the elements of a list, the keys of a
  dictionary, the characters of a string.\<close>

fun py_iter :: "pyval \<Rightarrow> error + pyval list" where
  "py_iter (PyList xs) = Inr xs"
| "py_iter (PyDict d) = Inr (map (\<lambda>kv. PyStr (fst kv)) d)"
| "py_iter (PyStr s) = Inr (map (\<lambda>c. PyStr [c]) s)"
| "py_iter v = Inl TypeError"

definition default_emoji :: string where
  "default_emoji = [CHR 0xF0, CHR 0x9F, CHR 0x94, CHR 0x98]"

fun py_get :: "pyval \<Rightarrow> string \<Rightarrow> pyval \<Rightarrow> error + pyval" where
  "py_get (PyDict d) k dflt = Inr (case map_of d k of None \<Rightarrow> dflt | Some v \<Rightarrow> v)"
| "py_get v k dflt = Inl AttributeError"

fun load_buttons :: "pyval list \<Rightarrow> rr_button list \<Rightarrow> error + rr_button list" where
  "load_buttons [] view = Inr view"
| "load_buttons (button # rest) view =
    (case py_getitem button ''role_id'' of
       Inl e \<Rightarrow> Inl e
     | Inr rid \<Rightarrow>
    (case py_get button ''emoji'' (PyStr default_emoji) of
       Inl e \<Rightarrow> Inl e
     | Inr em \<Rightarrow>
    (case py_getitem button ''colour'' of
       Inl e \<Rightarrow> Inl e
     | Inr name \<Rightarrow>
    (case getattr_ButtonStyle name of
       Inl e \<Rightarrow> Inl e
     | Inr colour \<Rightarrow> load_buttons rest (view @ [ReactionRoleButton rid em colour])))))"

fun load_messages ::
  "(string \<Rightarrow> int option) \<Rightarrow> (string \<times> pyval) list \<Rightarrow> bot \<Rightarrow> bot \<times> error option" where
  "load_messages to_int [] b = (b, None)"
| "load_messages to_int ((message_id, buttons) # rest) b =
    (case py_iter buttons of
       Inl e \<Rightarrow> (b, Some e)
     | Inr bs \<Rightarrow>
    (case load_buttons bs [] of
       Inl e \<Rightarrow> (b, Some e)
     | Inr view \<Rightarrow>
    (case to_int message_id of
       None \<Rightarrow> (b, Some ValueError)
     | Some mid \<Rightarrow> load_messages to_int rest (add_view b view mid))))"

fun load_guilds ::
  "(string \<Rightarrow> int option) \<Rightarrow> (string \<times> pyval) list \<Rightarrow> bot \<Rightarrow> bot \<times> error option" where
  "load_guilds to_int [] b = (b, None)"
| "load_guilds to_int ((guild_id, messages) # rest) b =
    (case py_items messages of
       Inl e \<Rightarrow> (b, Some e)
     | Inr ms \<Rightarrow>
    (case load_messages to_int ms b of
       (b1, Some e) \<Rightarrow> (b1, Some e)
     | (b1, None) \<Rightarrow> load_guilds to_int rest b1))"

text \<open>The result is the bot after the call and the exception that ended it, if any.
  \<open>to_int\<close> is the builtin \<^verbatim>\<open>int\<close> of line 113.\<close>

definition load_config :: "(string \<Rightarrow> int option) \<Rightarrow> fs \<Rightarrow> bot \<Rightarrow> bot \<times> error option" where
  "load_config to_int f b =
    (case f of
       None \<Rightarrow> (b, None)
     | Some t \<Rightarrow>
    (case json_load t of
       Inl e \<Rightarrow> (b, Some e)
     | Inr config \<Rightarrow>
    (case py_items config of
       Inl e \<Rightarrow> (b, Some e)
     | Inr gs \<Rightarrow> load_guilds to_int gs b)))"

text \<open>\<^verbatim>\<open>ReactionRole.__init__\<close> calls \<^verbatim>\<open>load_config\<close>, and \<^verbatim>\<open>setup\<close> adds the cog it
  has constructed. Neither has an exception handler.\<close>

definition setup_cog :: "(string \<Rightarrow> int option) \<Rightarrow> fs \<Rightarrow> bot \<Rightarrow> bot \<times> error option" where
  "setup_cog to_int f b =
    (case load_config to_int f b of
       (b1, Some e) \<Rightarrow> (b1, Some e)
     | (b1, None) \<Rightarrow> (b1\<lparr>cogs := cogs b1 @ [''ReactionRole'']\<rparr>, None))"

subsection \<open>The command \<^verbatim>\<open>reaction_role\<close>\<close>

fun split :: "char \<Rightarrow> string \<Rightarrow> string list" where
  "split sep [] = [[]]"
| "split sep (c # cs) =
    (if c = sep then [] # split sep cs
     else (case split sep cs of [] \<Rightarrow> [[c]] | p # ps \<Rightarrow> (c # p) # ps))"

text \<open>Lines 157 to 159: the channel id and the message id are what \<^verbatim>\<open>int\<close> makes of the
  last two parts of the link.\<close>

definition link_ids :: "(string \<Rightarrow> int option) \<Rightarrow> string \<Rightarrow> error + (int \<times> int)" where
  "link_ids to_int message_link =
    (let parts = split CHR ''/'' message_link in
     if length parts < 2 then Inl IndexError
     else (case to_int (parts ! (length parts - 2)) of
             None \<Rightarrow> Inl ValueError
           | Some channel_id \<Rightarrow>
               (case to_int (parts ! (length parts - 1)) of
                  None \<Rightarrow> Inl ValueError
                | Some message_id \<Rightarrow> Inr (channel_id, message_id))))"

text \<open>A component of a fetched message, as Discord reports it: its \<^verbatim>\<open>custom_id\<close>
  (\<^verbatim>\<open>None\<close> for a link button), its emoji as \<^verbatim>\<open>str\<close> prints it (if it has one) and its
  style. A message is the list of its action rows.\<close>

record component =
  item_custom_id :: "string option"
  item_emoji :: "string option"
  item_style :: ButtonStyle

type_synonym message = "component list list"

text \<open>A channel is its \<^verbatim>\<open>fetch_message\<close>; \<^verbatim>\<open>bot.get_channel\<close> returns \<^verbatim>\<open>None\<close> for
  a channel it does not know, and calling \<^verbatim>\<open>fetch_message\<close> on that is an
  \<^verbatim>\<open>AttributeError\<close>.\<close>

type_synonym channels = "int \<Rightarrow> (int \<Rightarrow> error + message) option"

definition random_choice :: "'a list \<Rightarrow> nat \<Rightarrow> 'a" where
  "random_choice xs seed = xs ! (seed mod length xs)"

definition colour_map :: "(string \<times> ButtonStyle) list" where
  "colour_map =
    [(''red'', danger), (''green'', success), (''blurple'', primary), (''grey'', secondary)]"

text \<open>Lines 179 to 184: the buttons already on the message are rebuilt, in order.\<close>

fun rebuild ::
  "(string \<Rightarrow> int option) \<Rightarrow> component list \<Rightarrow> rr_button list \<Rightarrow> error + rr_button list" where
  "rebuild to_int [] view = Inr view"
| "rebuild to_int (item # rest) view =
    (case item_custom_id item of
       None \<Rightarrow> Inl TypeError
     | Some s \<Rightarrow>
    (case to_int s of
       None \<Rightarrow> Inl ValueError
     | Some rid \<Rightarrow>
         rebuild to_int rest
           (view @ [ReactionRoleButton (PyInt rid)
                      (PyStr (case item_emoji item of None \<Rightarrow> ''None'' | Some e \<Rightarrow> e))
                      (item_style item)])))"

definition button_config :: "int \<Rightarrow> string \<Rightarrow> string \<Rightarrow> pyval" where
  "button_config rid em colour =
    PyDict [(''role_id'', PyInt rid), (''emoji'', PyStr em), (''colour'', PyStr colour)]"

datatype command_reply = Reaction_Role_Added | Error_Embed error

text \<open>
  The command works on the file and the bot, and answers with an embed. \<open>to_int\<close> is
  the builtin \<^verbatim>\<open>int\<close>, \<open>known\<close> is what the bot sees of Discord, \<open>seed\<close> decides
  \<^verbatim>\<open>random.choice\<close>, and \<open>edit\<close> is the exception, if any, that Discord answers
  \<^verbatim>\<open>message.edit\<close> with. Every exception is caught at line 204; what was done before it
  stays done.
\<close>

definition reaction_role ::
  "(string \<Rightarrow> int option) \<Rightarrow> fs \<times> bot \<Rightarrow> channels \<Rightarrow> nat \<Rightarrow> error option \<Rightarrow>
   int \<Rightarrow> string \<Rightarrow> int \<Rightarrow> string \<Rightarrow> string option \<Rightarrow> (fs \<times> bot) \<times> command_reply" where
  "reaction_role to_int st known seed edit guild_id message_link rid em colour =
    (case link_ids to_int message_link of
       Inl e \<Rightarrow> (st, Error_Embed e)
     | Inr (channel_id, message_id) \<Rightarrow>
    (case known channel_id of
       None \<Rightarrow> (st, Error_Embed AttributeError)
     | Some fetch_message \<Rightarrow>
    (case fetch_message message_id of
       Inl e \<Rightarrow> (st, Error_Embed e)
     | Inr msg \<Rightarrow>
    (let colour1 = (case colour of
                      None \<Rightarrow> random_choice [''red'', ''green'', ''blurple'', ''grey''] seed
                    | Some c \<Rightarrow> c);
         button_colour = (case map_of colour_map colour1 of None \<Rightarrow> secondary | Some c \<Rightarrow> c);
         button = ReactionRoleButton (PyInt rid) (PyStr em) button_colour
     in
    (case rebuild to_int (concat msg) [] of
       Inl e \<Rightarrow> (st, Error_Embed e)
     | Inr view0 \<Rightarrow>
    (let b1 = add_view (snd st) (view0 @ [button]) message_id in
    (case save_config (fst st) guild_id message_id (button_config rid em colour1) of
       Inl e \<Rightarrow> ((fst st, b1), Error_Embed e)
     | Inr f1 \<Rightarrow>
    (case edit of
       Some e \<Rightarrow> ((f1, b1), Error_Embed e)
     | None \<Rightarrow> ((f1, b1), Reaction_Role_Added)))))))))"

section \<open>Observing the persisted state\<close>

text \<open>What the configuration stores for a guild key and a message key, if anything,
  and the buttons listed there.\<close>

definition stored :: "pyval \<Rightarrow> string \<Rightarrow> string \<Rightarrow> pyval option" where
  "stored config g m =
    (case py_getitem config g of
       Inl e \<Rightarrow> None
     | Inr messages \<Rightarrow> (case py_getitem messages m of Inl e \<Rightarrow> None | Inr v \<Rightarrow> Some v))"

definition entries :: "pyval \<Rightarrow> string \<Rightarrow> string \<Rightarrow> pyval list" where
  "entries config g m = (case stored config g m of Some (PyList bs) \<Rightarrow> bs | _ \<Rightarrow> [])"

definition file_entries :: "fs \<Rightarrow> int \<Rightarrow> int \<Rightarrow> pyval list" where
  "file_entries f guild_id message_id =
    (case read_config f of
       Inl e \<Rightarrow> []
     | Inr config \<Rightarrow> entries config (str_int guild_id) (str_int message_id))"

text \<open>A configuration of the shape \<^verbatim>\<open>save_config\<close> writes: guilds map to dictionaries
  of messages, messages to lists.\<close>

definition well_shaped :: "pyval \<Rightarrow> bool" where
  "well_shaped config =
    (case config of
       PyDict d \<Rightarrow>
         list_all (\<lambda>kv. case snd kv of
                          PyDict md \<Rightarrow> list_all (\<lambda>kw. case snd kw of PyList bs \<Rightarrow> True | _ \<Rightarrow> False) md
                        | _ \<Rightarrow> False) d
     | _ \<Rightarrow> False)"

text \<open>The trigger identifier of a stored button is the \<^verbatim>\<open>custom_id\<close> it gets when it
  is constructed: \<^verbatim>\<open>str\<close> of its \<^verbatim>\<open>role_id\<close>.\<close>

definition trigger_id :: "pyval \<Rightarrow> string option" where
  "trigger_id button =
    (case py_getitem button ''role_id'' of Inl e \<Rightarrow> None | Inr rid \<Rightarrow> Some (py_str rid))"

definition unique_triggers :: "pyval \<Rightarrow> bool" where
  "unique_triggers config =
    (case config of
       PyDict d \<Rightarrow>
         list_all (\<lambda>kv. case snd kv of
                          PyDict md \<Rightarrow>
                            list_all (\<lambda>kw. case snd kw of
                                             PyList bs \<Rightarrow> distinct (map trigger_id bs)
                                           | _ \<Rightarrow> True) md
                        | _ \<Rightarrow> True) d
     | _ \<Rightarrow> True)"

text \<open>Modelled from the spec: \<^verbatim>\<open>lookup\<close> of the Registry, which the repository does not
  have. It returns the first binding of the anchor (in its scope) whose trigger
  identifier is the given one, read from the persisted state.\<close>

definition lookup :: "fs \<Rightarrow> int \<Rightarrow> int \<Rightarrow> string \<Rightarrow> pyval option" where
  "lookup f scope_id anchor_id trigger =
    find (\<lambda>b. trigger_id b = Some trigger) (file_entries f scope_id anchor_id)"

text \<open>Every button of every registered view carries, as its \<^verbatim>\<open>custom_id\<close>, \<^verbatim>\<open>str\<close> of
  its own \<^verbatim>\<open>role_id\<close>.\<close>

definition views_ok :: "bot \<Rightarrow> bool" where
  "views_ok b = list_all (\<lambda>v. list_all (\<lambda>x. custom_id x = py_str (role_id x)) (snd v)) (views b)"

section \<open>Runs of the cog\<close>

text \<open>\<^verbatim>\<open>save_config\<close> stopped between line 133, which has opened the file for writing,
  and the end of \<^verbatim>\<open>json.dump\<close> at line 134, before anything has reached the file.\<close>

definition save_config_interrupted :: "fs \<Rightarrow> int \<Rightarrow> int \<Rightarrow> pyval \<Rightarrow> error + fs" where
  "save_config_interrupted f guild_id message_id button =
    (case updated_config f guild_id message_id button of
       Inl e \<Rightarrow> Inl e
     | Inr config \<Rightarrow> Inr (open_w f))"

text \<open>A binding is a guild, a message, a role, an emoji and a colour. \<open>add_all\<close> saves
  a sequence of bindings, one \<^verbatim>\<open>save_config\<close> call each, and stops at the first
  exception.\<close>

type_synonym binding = "int \<times> int \<times> int \<times> string \<times> string"

definition triple :: "binding \<Rightarrow> int \<times> int \<times> int" where
  "triple x = (case x of (g, m, r, em, colour) \<Rightarrow> (g, m, r))"

definition binding_button :: "binding \<Rightarrow> pyval" where
  "binding_button x = (case x of (g, m, r, em, colour) \<Rightarrow> button_config r em colour)"

definition add :: "fs \<Rightarrow> binding \<Rightarrow> error + fs" where
  "add f x = (case x of (g, m, r, em, colour) \<Rightarrow> save_config f g m (button_config r em colour))"

fun add_all :: "fs \<Rightarrow> binding list \<Rightarrow> error + fs" where
  "add_all f [] = Inr f"
| "add_all f (x # xs) = (case add f x of Inl e \<Rightarrow> Inl e | Inr f1 \<Rightarrow> add_all f1 xs)"

text \<open>The operations that change the persisted state: a direct \<^verbatim>\<open>save_config\<close> of a
  binding and the command, with everything the command depends on.\<close>

datatype operation =
    Add binding
  | Attach channels nat "error option" int string int string "string option"

fun step :: "(string \<Rightarrow> int option) \<Rightarrow> fs \<times> bot \<Rightarrow> operation \<Rightarrow> fs \<times> bot" where
  "step to_int st (Add x) = (case add (fst st) x of Inl e \<Rightarrow> st | Inr f1 \<Rightarrow> (f1, snd st))"
| "step to_int st (Attach known seed edit guild_id message_link rid em colour) =
    fst (reaction_role to_int st known seed edit guild_id message_link rid em colour)"

definition run :: "(string \<Rightarrow> int option) \<Rightarrow> operation list \<Rightarrow> fs \<times> bot" where
  "run to_int ops = foldl (step to_int) (None, \<lparr>views = [], cogs = []\<rparr>) ops"

text \<open>The triple an operation is about. For a command it is its guild, the message id
  that \<^verbatim>\<open>int\<close> reads from its link, and its role; a command from whose link lines 157 to
  159 get no ids saves nothing and is about none.\<close>

fun op_triple :: "(string \<Rightarrow> int option) \<Rightarrow> operation \<Rightarrow> (int \<times> int \<times> int) option" where
  "op_triple to_int (Add x) = Some (triple x)"
| "op_triple to_int (Attach known seed edit guild_id message_link rid em colour) =
    (case link_ids to_int message_link of
       Inl e \<Rightarrow> None
     | Inr (channel_id, message_id) \<Rightarrow> Some (guild_id, message_id, rid))"

section \<open>Decimal strings\<close>

text \<open>\<^verbatim>\<open>int\<close> reads back what \<^verbatim>\<open>str\<close> prints, so \<^verbatim>\<open>str\<close> maps different integers to
  different strings: two guilds, messages or roles never share a key.\<close>

lemma of_char_digit_char: "d < 10 \<Longrightarrow> (of_char (digit_char d) :: nat) = 48 + d"
  by (simp add: digit_char_def)

lemma is_digit_digit_char: "d < 10 \<Longrightarrow> is_digit (digit_char d)"
  by (simp add: is_digit_def of_char_digit_char)

lemma digit_val_digit_char: "d < 10 \<Longrightarrow> digit_val (digit_char d) = d"
  by (simp add: digit_val_def of_char_digit_char)

lemma dec_not_Nil: "dec n \<noteq> []"
  by (subst dec.simps) simp

lemma dec_digits: "c \<in> set (dec n) \<Longrightarrow> is_digit c"
proof (induction n arbitrary: c rule: dec.induct)
  case (1 n)
  show ?case
  proof (cases "n < 10")
    case True
    with "1.prems" show ?thesis
      by (subst (asm) dec.simps) (simp add: is_digit_digit_char)
  next
    case False
    from "1.prems" have "c \<in> set (dec (n div 10)) \<or> c = digit_char (n mod 10)"
      by (subst (asm) dec.simps) (auto simp: False)
    with "1.IH" [OF False] show ?thesis
      by (auto simp: is_digit_digit_char)
  qed
qed

lemma digits_value_dec:
  "digits_value (dec n @ cs) acc = digits_value cs (acc * 10 ^ length (dec n) + n)"
proof (induction n arbitrary: cs acc rule: dec.induct)
  case (1 n)
  show ?case
  proof (cases "n < 10")
    case True
    then have "dec n = [digit_char n]" by (subst dec.simps) simp
    with True show ?thesis
      by (simp add: is_digit_digit_char digit_val_digit_char mult.commute)
  next
    case False
    then have eq: "dec n = dec (n div 10) @ [digit_char (n mod 10)]"
      by (subst dec.simps) simp
    have "digits_value (dec n @ cs) acc
        = digits_value (digit_char (n mod 10) # cs) (acc * 10 ^ length (dec (n div 10)) + n div 10)"
      using "1.IH" [OF False, of "digit_char (n mod 10) # cs" acc] by (simp add: eq)
    also have "\<dots> = digits_value cs (10 * (acc * 10 ^ length (dec (n div 10)) + n div 10) + n mod 10)"
      by (simp add: is_digit_digit_char digit_val_digit_char)
    also have "10 * (acc * 10 ^ length (dec (n div 10)) + n div 10) + n mod 10
        = acc * 10 ^ length (dec n) + n"
      by (simp add: eq algebra_simps)
    finally show ?thesis .
  qed
qed

lemma unsigned_value_dec: "unsigned_value (dec n) = Some n"
proof -
  obtain c cs where eq: "dec n = c # cs"
    using dec_not_Nil [of n] by (cases "dec n") auto
  then have "is_digit c" using dec_digits [of c n] by simp
  moreover have "digits_value (dec n) 0 = Some n"
    using digits_value_dec [of n "[]" 0] by simp
  ultimately show ?thesis by (simp add: unsigned_value_def eq)
qed

lemma trim_space_id:
  assumes "s \<noteq> []" "\<not> is_space (hd s)" "\<not> is_space (last s)"
  shows "trim_space s = s"
proof -
  from assms have "dropWhile is_space s = s" by (cases s) auto
  moreover from assms have "dropWhile is_space (rev s) = rev s"
    by (cases "rev s") (auto simp: last_rev hd_rev)
  ultimately show ?thesis by (simp add: trim_space_def)
qed

lemma not_space_digit: "is_digit c \<Longrightarrow> \<not> is_space c"
  by (auto simp: is_digit_def is_space_def)

lemma dec_ends: "\<not> is_space (hd (dec n))" "\<not> is_space (last (dec n))"
  using dec_not_Nil [of n] dec_digits [of _ n] not_space_digit
  by (meson hd_in_set last_in_set)+

lemma trim_space_dec: "trim_space (dec n) = dec n"
  by (rule trim_space_id) (simp_all add: dec_not_Nil dec_ends)

lemma trim_space_minus_dec: "trim_space (CHR ''-'' # dec n) = CHR ''-'' # dec n"
proof (rule trim_space_id)
  show "\<not> is_space (hd (CHR ''-'' # dec n))" by (simp add: is_space_def)
  show "\<not> is_space (last (CHR ''-'' # dec n))" by (simp add: dec_not_Nil dec_ends)
qed simp

lemma digit_not_sign: "is_digit c \<Longrightarrow> c \<noteq> CHR ''-'' \<and> c \<noteq> CHR ''+''"
  by (auto simp: is_digit_def)

lemma py_int_str_int: "py_int (str_int i) = Some i"
proof (cases "i < 0")
  case True
  then show ?thesis
    by (simp add: py_int_def str_int_def trim_space_minus_dec unsigned_value_dec)
next
  case False
  obtain c cs where eq: "dec (nat i) = c # cs"
    using dec_not_Nil [of "nat i"] by (cases "dec (nat i)") auto
  then have "is_digit c" using dec_digits [of c "nat i"] by simp
  then have "c \<noteq> CHR ''-''" "c \<noteq> CHR ''+''" using digit_not_sign by auto
  moreover have "unsigned_value (c # cs) = Some (nat i)"
    using unsigned_value_dec [of "nat i"] by (simp add: eq)
  moreover have "trim_space (c # cs) = c # cs" using trim_space_dec [of "nat i"] by (simp add: eq)
  ultimately show ?thesis using False
    by (simp add: py_int_def str_int_def eq)
qed

lemma str_int_inj: "str_int i = str_int j \<longleftrightarrow> i = j"
  by (metis py_int_str_int option.inject)

section \<open>What \<^verbatim>\<open>save_config\<close> computes\<close>

text \<open>On a dictionary the nine steps of \<open>updated_config\<close> come to three cases: a new
  guild, a new message of a known guild, and a further button of a known message.
  Everything that is not of that shape ends in an exception before the file is
  touched.\<close>

lemma map_of_update:
  "map_of (AList.update k v al) k' = (if k' = k then Some v else map_of al k')"
  by (simp add: update_conv')

lemma updated_config_dict:
  assumes "read_config f = Inr (PyDict d)"
  shows "updated_config f g m b =
    (case map_of d (str_int g) of
       None \<Rightarrow> Inr (PyDict (AList.update (str_int g) (PyDict [(str_int m, PyList [b])]) d))
     | Some (PyDict md) \<Rightarrow>
         (case map_of md (str_int m) of
            None \<Rightarrow>
              Inr (PyDict (AList.update (str_int g)
                    (PyDict (AList.update (str_int m) (PyList [b]) md)) d))
          | Some (PyList bs) \<Rightarrow>
              Inr (PyDict (AList.update (str_int g)
                    (PyDict (AList.update (str_int m) (PyList (bs @ [b])) md)) d))
          | Some v \<Rightarrow> Inl AttributeError)
     | Some v \<Rightarrow> Inl TypeError)"
  using assms
  by (simp add: updated_config_def map_of_update split: option.split pyval.split)

lemma updated_config_not_dict:
  assumes "read_config f = Inr c" and "\<And>d. c \<noteq> PyDict d"
  shows "updated_config f g m b = Inl TypeError"
proof (cases c)
  case (PyDict d)
  with assms(2) show ?thesis by blast
qed (use assms(1) in \<open>simp_all add: updated_config_def\<close>)

lemma updated_config_read_error:
  "read_config f = Inl e \<Longrightarrow> updated_config f g m b = Inl e"
  by (simp add: updated_config_def)

lemma stored_dict:
  "stored (PyDict d) g m =
    (case map_of d g of Some (PyDict md) \<Rightarrow> map_of md m | _ \<Rightarrow> None)"
  by (simp add: stored_def split: option.split pyval.split)

lemma updated_config_stored:
  assumes "updated_config f g m b = Inr c'"
  shows "\<exists>c. read_config f = Inr c
    \<and> stored c' (str_int g) (str_int m) = Some (PyList (entries c (str_int g) (str_int m) @ [b]))
    \<and> (\<forall>g' m'. (g', m') \<noteq> (str_int g, str_int m) \<longrightarrow> stored c' g' m' = stored c g' m')"
proof (cases "read_config f")
  case (Inl e)
  with assms show ?thesis by (simp add: updated_config_read_error)
next
  case (Inr c)
  show ?thesis
  proof (cases "\<exists>d. c = PyDict d")
    case False
    with Inr assms show ?thesis by (simp add: updated_config_not_dict)
  next
    case True
    then obtain d where c: "c = PyDict d" by blast
    note eq = updated_config_dict [OF Inr [unfolded c], of g m b]
    show ?thesis
    proof (cases "map_of d (str_int g)")
      case None
      with eq assms have "c' = PyDict (AList.update (str_int g) (PyDict [(str_int m, PyList [b])]) d)"
        by simp
      with None Inr c show ?thesis
        by (auto simp: entries_def stored_dict map_of_update)
    next
      case (Some v)
      with eq assms obtain md where v: "v = PyDict md"
        by (cases v) auto
      show ?thesis
      proof (cases "map_of md (str_int m)")
        case None
        with eq assms Some v
        have "c' = PyDict (AList.update (str_int g)
                    (PyDict (AList.update (str_int m) (PyList [b]) md)) d)"
          by simp
        with None Some v Inr c show ?thesis
          by (auto simp: entries_def stored_dict map_of_update)
      next
        case (Some w)
        with eq assms \<open>map_of d (str_int g) = Some v\<close> v obtain bs where w: "w = PyList bs"
          by (cases w) auto
        with eq assms Some \<open>map_of d (str_int g) = Some v\<close> v
        have "c' = PyDict (AList.update (str_int g)
                    (PyDict (AList.update (str_int m) (PyList (bs @ [b])) md)) d)"
          by simp
        with Some w \<open>map_of d (str_int g) = Some v\<close> v Inr c show ?thesis
          by (auto simp: entries_def stored_dict map_of_update)
      qed
    qed
  qed
qed

lemma list_all_update:
  "list_all P al \<Longrightarrow> P (k, v) \<Longrightarrow> list_all P (AList.update k v al)"
  by (induction al) auto

lemma list_all_map_of:
  "list_all P al \<Longrightarrow> map_of al k = Some v \<Longrightarrow> P (k, v)"
  by (auto simp: list_all_iff dest: map_of_SomeD)

lemma updated_config_well_shaped:
  assumes "read_config f = Inr c" and "well_shaped c"
  shows "\<exists>c'. updated_config f g m b = Inr c' \<and> well_shaped c'"
proof -
  let ?Q = "\<lambda>kw. case snd kw of PyList bs \<Rightarrow> True | _ \<Rightarrow> False"
  let ?P = "\<lambda>kv. case snd kv of PyDict md \<Rightarrow> list_all ?Q md | _ \<Rightarrow> False"
  from assms(2) obtain d where c: "c = PyDict d" and d: "list_all ?P d"
    by (cases c) (auto simp: well_shaped_def)
  note eq = updated_config_dict [OF assms(1) [unfolded c], of g m b]
  show ?thesis
  proof (cases "map_of d (str_int g)")
    case None
    have "?P (str_int g, PyDict [(str_int m, PyList [b])])" by simp
    from list_all_update [of ?P, OF d this] None eq show ?thesis
      by (simp add: well_shaped_def)
  next
    case (Some v)
    from list_all_map_of [of ?P, OF d Some] obtain md where v: "v = PyDict md" and md: "list_all ?Q md"
      by (cases v) auto
    show ?thesis
    proof (cases "map_of md (str_int m)")
      case None
      have "?Q (str_int m, PyList [b])" by simp
      from list_all_update [of ?Q, OF md this]
      have "?P (str_int g, PyDict (AList.update (str_int m) (PyList [b]) md))" by simp
      from list_all_update [of ?P, OF d this] None Some v eq show ?thesis
        by (simp add: well_shaped_def)
    next
      case (Some w)
      from list_all_map_of [of ?Q, OF md Some] obtain bs where w: "w = PyList bs"
        by (cases w) auto
      have "?Q (str_int m, PyList (bs @ [b]))" by simp
      from list_all_update [of ?Q, OF md this]
      have "?P (str_int g, PyDict (AList.update (str_int m) (PyList (bs @ [b])) md))" by simp
      from list_all_update [of ?P, OF d this] Some w \<open>map_of d (str_int g) = Some v\<close> v eq
      show ?thesis
        by (simp add: well_shaped_def)
    qed
  qed
qed

lemma save_config_Inr:
  "save_config f g m b = Inr f' \<longleftrightarrow>
    (\<exists>c'. updated_config f g m b = Inr c' \<and> f' = Some (Json_text c'))"
  by (auto simp: save_config_def json_dump_def split: sum.splits)

lemma entries_not_Nil:
  assumes "entries c g m \<noteq> []"
  obtains d md where "c = PyDict d" "map_of d g = Some (PyDict md)"
    "map_of md m = Some (PyList (entries c g m))"
proof -
  from assms obtain bs where st: "stored c g m = Some (PyList bs)" and bs: "entries c g m = bs"
    by (auto simp: entries_def split: option.splits pyval.splits)
  from st obtain d where c: "c = PyDict d"
    by (cases c) (auto simp: stored_def)
  from st c obtain md where "map_of d g = Some (PyDict md)" "map_of md m = Some (PyList bs)"
    by (auto simp: stored_dict split: option.splits pyval.splits)
  with c bs that show thesis by simp
qed

lemma trigger_id_button_config [simp]:
  "trigger_id (button_config r em colour) = Some (str_int r)"
  by (simp add: trigger_id_def button_config_def py_str_def)

lemma file_entries_save_config:
  assumes "save_config f g m b = Inr f'"
  shows "file_entries f' g m = file_entries f g m @ [b]"
proof -
  from assms obtain c' where u: "updated_config f g m b = Inr c'" and f': "f' = Some (Json_text c')"
    by (auto simp: save_config_Inr)
  from updated_config_stored [OF u] f' show ?thesis
    by (auto simp: file_entries_def read_config_def entries_def)
qed

section \<open>Starting the cog\<close>

text \<open>
  C8. When there is no configuration file, \<^verbatim>\<open>load_config\<close> does nothing and raises
  nothing: the bot keeps the views it had, so a fresh bot starts with no registered
  view and the cog is added. The first \<^verbatim>\<open>save_config\<close> starts from the empty
  dictionary and writes the one button under its guild and message.
\<close>

theorem no_file_starts_empty:
  "load_config to_int None b = (b, None)
   \<and> setup_cog to_int None b = (b\<lparr>cogs := cogs b @ [''ReactionRole'']\<rparr>, None)
   \<and> views (fst (setup_cog to_int None \<lparr>views = [], cogs = []\<rparr>)) = []
   \<and> read_config None = Inr (PyDict [])
   \<and> save_config None guild_id message_id button =
       Inr (Some (Json_text (PyDict [(str_int guild_id,
              PyDict [(str_int message_id, PyList [button])])])))"
  by (simp add: load_config_def setup_cog_def read_config_def save_config_def
      updated_config_def json_dump_def)

text \<open>
  C4, as the specification states it, asks that a file that cannot be parsed is treated
  as an empty store. The code has no handler: with such a file the start of the cog ends
  in the exception of \<^verbatim>\<open>json.load\<close> and the cog is not added, whereas without a file
  it is added.
\<close>

theorem corrupt_file_crashes_counterexample:
  "setup_cog py_int (Some (Unreadable_text JSONDecodeError)) \<lparr>views = [], cogs = []\<rparr>
     = (\<lparr>views = [], cogs = []\<rparr>, Some JSONDecodeError)
   \<and> setup_cog py_int (Some (Unreadable_text UnicodeDecodeError)) \<lparr>views = [], cogs = []\<rparr>
     = (\<lparr>views = [], cogs = []\<rparr>, Some UnicodeDecodeError)
   \<and> setup_cog py_int None \<lparr>views = [], cogs = []\<rparr>
     = (\<lparr>views = [], cogs = [''ReactionRole'']\<rparr>, None)"
  by (simp add: setup_cog_def load_config_def)

text \<open>
  C4, amended. If the file exists and \<^verbatim>\<open>json.load\<close> cannot read it, \<^verbatim>\<open>load_config\<close>
  raises the exception that \<^verbatim>\<open>json.load\<close> raises on it, whichever it is
  (\<^verbatim>\<open>JSONDecodeError\<close> on a text that is not a JSON document, \<^verbatim>\<open>UnicodeDecodeError\<close> on
  bytes that are not text); the constructor of the cog and the function that adds the
  cog pass it on, no view is registered and the cog is not added.
\<close>

theorem corrupt_file_propagates:
  "json_load t = Inl e \<Longrightarrow>
     load_config to_int (Some t) b = (b, Some e) \<and> setup_cog to_int (Some t) b = (b, Some e)"
  by (simp add: setup_cog_def load_config_def)

theorem corrupt_file_propagates_witness:
  "json_load Empty_text = Inl JSONDecodeError
   \<and> load_config py_int (Some Empty_text) \<lparr>views = [], cogs = []\<rparr>
       = (\<lparr>views = [], cogs = []\<rparr>, Some JSONDecodeError)
   \<and> setup_cog py_int (Some Empty_text) \<lparr>views = [], cogs = []\<rparr>
       = (\<lparr>views = [], cogs = []\<rparr>, Some JSONDecodeError)
   \<and> json_load (Unreadable_text UnicodeDecodeError) = Inl UnicodeDecodeError
   \<and> setup_cog py_int (Some (Unreadable_text UnicodeDecodeError)) \<lparr>views = [], cogs = [''Other'']\<rparr>
       = (\<lparr>views = [], cogs = [''Other'']\<rparr>, Some UnicodeDecodeError)"
  using corrupt_file_propagates
      [where t = Empty_text and e = JSONDecodeError and to_int = py_int
         and b = "\<lparr>views = [], cogs = []\<rparr>"]
    corrupt_file_propagates
      [where t = "Unreadable_text UnicodeDecodeError" and e = UnicodeDecodeError and to_int = py_int
         and b = "\<lparr>views = [], cogs = [''Other'']\<rparr>"]
  by simp

section \<open>Adding a binding\<close>

text \<open>
  C9. Frame property of \<^verbatim>\<open>save_config\<close>. On a configuration of the shape it writes the
  call succeeds. Whenever it succeeds, the new file holds, under the guild and message of
  the call, the list that was there before (the empty list if the guild or the message
  was not there) with the button appended last, and under every other pair of keys
  exactly what it held before.
\<close>

theorem save_config_frame:
  "(read_config f = Inr config \<and> well_shaped config \<longrightarrow> (\<exists>f'. save_config f g m b = Inr f'))
   \<and> (save_config f g m b = Inr f' \<longrightarrow>
        (\<exists>config config'. read_config f = Inr config \<and> read_config f' = Inr config'
           \<and> stored config' (str_int g) (str_int m)
               = Some (PyList (entries config (str_int g) (str_int m) @ [b]))
           \<and> (\<forall>g' m'. (g', m') \<noteq> (str_int g, str_int m) \<longrightarrow>
                 stored config' g' m' = stored config g' m')))"
proof (intro conjI impI)
  assume "read_config f = Inr config \<and> well_shaped config"
  then obtain c' where "updated_config f g m b = Inr c'"
    using updated_config_well_shaped by blast
  then show "\<exists>f'. save_config f g m b = Inr f'"
    by (simp add: save_config_Inr)
next
  assume "save_config f g m b = Inr f'"
  then obtain c' where u: "updated_config f g m b = Inr c'" and f': "f' = Some (Json_text c')"
    by (auto simp: save_config_Inr)
  from updated_config_stored [OF u] f'
  show "\<exists>config config'. read_config f = Inr config \<and> read_config f' = Inr config'
           \<and> stored config' (str_int g) (str_int m)
               = Some (PyList (entries config (str_int g) (str_int m) @ [b]))
           \<and> (\<forall>g' m'. (g', m') \<noteq> (str_int g, str_int m) \<longrightarrow>
                 stored config' g' m' = stored config g' m')"
    by (auto simp: read_config_def)
qed

theorem save_config_frame_witness:
  "read_config (Some (Json_text (PyDict [(''1'', PyDict [(''2'', PyList [PyInt 8])])])))
     = Inr (PyDict [(''1'', PyDict [(''2'', PyList [PyInt 8])])])
   \<and> well_shaped (PyDict [(''1'', PyDict [(''2'', PyList [PyInt 8])])])
   \<and> save_config (Some (Json_text (PyDict [(''1'', PyDict [(''2'', PyList [PyInt 8])])]))) 1 2 (PyInt 9)
     = Inr (Some (Json_text (PyDict [(''1'', PyDict [(''2'', PyList [PyInt 8, PyInt 9])])])))
   \<and> stored (PyDict [(''1'', PyDict [(''2'', PyList [PyInt 8, PyInt 9])])]) (str_int 1) (str_int 2)
     = Some (PyList [PyInt 8, PyInt 9])"
proof -
  let ?c0 = "PyDict [(''1'', PyDict [(''2'', PyList [PyInt 8])])]"
  let ?c1 = "PyDict [(''1'', PyDict [(''2'', PyList [PyInt 8, PyInt 9])])]"
  have r: "read_config (Some (Json_text ?c0)) = Inr ?c0"
    by (simp add: read_config_def)
  have w: "well_shaped ?c0"
    by (simp add: well_shaped_def)
  have s: "save_config (Some (Json_text ?c0)) 1 2 (PyInt 9) = Inr (Some (Json_text ?c1))"
    by code_simp
  have e: "entries ?c0 (str_int 1) (str_int 2) = [PyInt 8]"
    by code_simp
  from save_config_frame [of "Some (Json_text ?c0)" ?c0 1 2 "PyInt 9" "Some (Json_text ?c1)"] r w s e
  show ?thesis
    by (simp add: read_config_def)
qed

text \<open>
  C1, as the specification states it, asks that adding a triple that is already there
  fails with a duplicate error and changes nothing. The code never looks for the triple:
  the second call succeeds and the list holds the binding twice.
\<close>

theorem duplicate_is_appended_counterexample:
  "save_config
     (Some (Json_text (PyDict [(''1'', PyDict [(''2'', PyList [button_config 3 ''x'' ''red''])])])))
     1 2 (button_config 3 ''x'' ''red'')
   = Inr (Some (Json_text (PyDict [(''1'', PyDict [(''2'',
        PyList [button_config 3 ''x'' ''red'', button_config 3 ''x'' ''red''])])])))"
  by code_simp

text \<open>
  C1, amended. If the list of the guild and message already holds a button with the
  trigger identifier of the role, \<^verbatim>\<open>save_config\<close> still succeeds: it appends the new
  button after the old ones, which stay as they are, so that the list then holds at
  least two entries with that trigger identifier.
\<close>

theorem duplicate_add_succeeds:
  assumes "\<exists>x \<in> set (file_entries f g m). trigger_id x = Some (str_int r)"
  shows "\<exists>f'. save_config f g m (button_config r em colour) = Inr f'
    \<and> file_entries f' g m = file_entries f g m @ [button_config r em colour]
    \<and> 2 \<le> length (filter (\<lambda>x. trigger_id x = Some (str_int r)) (file_entries f' g m))"
proof -
  let ?b = "button_config r em colour"
  from assms have ne: "file_entries f g m \<noteq> []" by auto
  then obtain c where r: "read_config f = Inr c" and e: "entries c (str_int g) (str_int m) \<noteq> []"
    by (auto simp: file_entries_def split: sum.splits)
  from e obtain d md where c: "c = PyDict d" and "map_of d (str_int g) = Some (PyDict md)"
      "map_of md (str_int m) = Some (PyList (entries c (str_int g) (str_int m)))"
    by (rule entries_not_Nil)
  with updated_config_dict [OF r [unfolded c], of g m ?b]
  obtain c' where "updated_config f g m ?b = Inr c'" by simp
  then have s: "save_config f g m ?b = Inr (Some (Json_text c'))"
    by (simp add: save_config_Inr)
  note fe = file_entries_save_config [OF s]
  from assms have "1 \<le> length (filter (\<lambda>x. trigger_id x = Some (str_int r)) (file_entries f g m))"
    by (auto simp: Suc_le_eq length_greater_0_conv filter_empty_conv simp del: length_greater_0_conv)
  then have "2 \<le> length (filter (\<lambda>x. trigger_id x = Some (str_int r))
      (file_entries (Some (Json_text c')) g m))"
    by (simp add: fe)
  with s fe show ?thesis by blast
qed

theorem duplicate_add_succeeds_witness:
  "(\<exists>x \<in> set (file_entries (Some (Json_text (PyDict [(''1'', PyDict [(''2'',
        PyList [button_config 3 ''x'' ''red''])])]))) 1 2). trigger_id x = Some (str_int 3))
   \<and> (\<exists>f'. save_config (Some (Json_text (PyDict [(''1'', PyDict [(''2'',
        PyList [button_config 3 ''x'' ''red''])])]))) 1 2 (button_config 3 ''y'' ''green'') = Inr f'
      \<and> file_entries f' 1 2 = [button_config 3 ''x'' ''red'', button_config 3 ''y'' ''green''])"
proof -
  let ?f = "Some (Json_text (PyDict [(''1'', PyDict [(''2'', PyList [button_config 3 ''x'' ''red''])])]))"
  have e: "file_entries ?f 1 2 = [button_config 3 ''x'' ''red'']"
    by code_simp
  then have h: "\<exists>x \<in> set (file_entries ?f 1 2). trigger_id x = Some (str_int 3)"
    by simp
  from duplicate_add_succeeds [OF h, of "''y''" "''green''"] h e show ?thesis
    by auto
qed

lemma updated_config_is_dict:
  assumes "updated_config f g m b = Inr c'"
  shows "\<exists>d'. c' = PyDict d'"
proof (cases "read_config f")
  case (Inl e)
  with assms show ?thesis by (simp add: updated_config_read_error)
next
  case (Inr c)
  show ?thesis
  proof (cases "\<exists>d. c = PyDict d")
    case False
    with Inr assms show ?thesis by (simp add: updated_config_not_dict)
  next
    case True
    then obtain d where c: "c = PyDict d" by blast
    from updated_config_dict [OF Inr [unfolded c], of g m b] assms show ?thesis
      by (auto split: option.splits pyval.splits)
  qed
qed

text \<open>
  C5, as the specification states it, asks for an all-or-nothing write. The code opens
  the file itself for writing and dumps into it: stopped between the two, it leaves an
  empty file, from which \<^verbatim>\<open>json.load\<close> gets neither the prior nor the new state but a
  \<^verbatim>\<open>JSONDecodeError\<close>.
\<close>

theorem interrupted_save_counterexample:
  "read_config (Some (Json_text (PyDict [(''1'', PyDict [(''2'', PyList [button_config 3 ''x'' ''red''])])])))
     = Inr (PyDict [(''1'', PyDict [(''2'', PyList [button_config 3 ''x'' ''red''])])])
   \<and> save_config (Some (Json_text (PyDict [(''1'', PyDict [(''2'', PyList [button_config 3 ''x'' ''red''])])])))
        1 2 (button_config 4 ''y'' ''green'')
     = Inr (Some (Json_text (PyDict [(''1'', PyDict [(''2'',
         PyList [button_config 3 ''x'' ''red'', button_config 4 ''y'' ''green''])])])))
   \<and> save_config_interrupted
        (Some (Json_text (PyDict [(''1'', PyDict [(''2'', PyList [button_config 3 ''x'' ''red''])])])))
        1 2 (button_config 4 ''y'' ''green'')
     = Inr (Some Empty_text)
   \<and> read_config (Some Empty_text) = Inl JSONDecodeError
   \<and> load_config py_int (Some Empty_text) \<lparr>views = [], cogs = []\<rparr>
     = (\<lparr>views = [], cogs = []\<rparr>, Some JSONDecodeError)"
  by code_simp

text \<open>
  C5, amended. \<^verbatim>\<open>save_config\<close> rewrites the file in place: line 133 opens the file
  itself for writing, which empties it, and line 134 dumps the whole configuration into
  it. When the call completes, the file holds the complete new configuration, a
  dictionary: \<^verbatim>\<open>json.load\<close> returns it, at line 121 to the next \<^verbatim>\<open>save_config\<close> and at
  line 102 to \<^verbatim>\<open>load_config\<close>, whose loops then run over it. When the call is stopped
  after line 133 has opened the file and before anything is dumped, the file is empty:
  \<^verbatim>\<open>json.load\<close> raises \<^verbatim>\<open>JSONDecodeError\<close> on it, and so do \<^verbatim>\<open>load_config\<close>, which
  registers no view, and every later \<^verbatim>\<open>save_config\<close>.
\<close>

theorem save_rewrites_in_place:
  "(save_config f g m b = Inr f' \<longrightarrow>
      (\<exists>d'. updated_config f g m b = Inr (PyDict d') \<and> f' = Some (Json_text (PyDict d'))
         \<and> read_config f' = Inr (PyDict d')
         \<and> load_config to_int f' bt = load_guilds to_int d' bt))
   \<and> (save_config_interrupted f g m b = Inr f'' \<longrightarrow>
      (\<exists>c'. updated_config f g m b = Inr c') \<and> f'' = Some Empty_text
      \<and> read_config f'' = Inl JSONDecodeError
      \<and> load_config to_int f'' bt = (bt, Some JSONDecodeError)
      \<and> save_config f'' g2 m2 b2 = Inl JSONDecodeError)"
proof (intro conjI impI)
  assume "save_config f g m b = Inr f'"
  then obtain c' where u: "updated_config f g m b = Inr c'" and f': "f' = Some (Json_text c')"
    by (auto simp: save_config_Inr)
  from updated_config_is_dict [OF u] obtain d' where "c' = PyDict d'" by blast
  with u f' show "\<exists>d'. updated_config f g m b = Inr (PyDict d') \<and> f' = Some (Json_text (PyDict d'))
         \<and> read_config f' = Inr (PyDict d')
         \<and> load_config to_int f' bt = load_guilds to_int d' bt"
    by (simp add: read_config_def load_config_def)
next
  assume i: "save_config_interrupted f g m b = Inr f''"
  then show "\<exists>c'. updated_config f g m b = Inr c'"
    by (auto simp: save_config_interrupted_def split: sum.splits)
  from i show e: "f'' = Some Empty_text"
    by (auto simp: save_config_interrupted_def open_w_def split: sum.splits)
  from e show "read_config f'' = Inl JSONDecodeError"
    by (simp add: read_config_def)
  from e show "load_config to_int f'' bt = (bt, Some JSONDecodeError)"
    by (simp add: load_config_def)
  from e show "save_config f'' g2 m2 b2 = Inl JSONDecodeError"
    by (simp add: save_config_def updated_config_def read_config_def)
qed

theorem save_rewrites_in_place_witness:
  "save_config None 1 2 (button_config 5 ''x'' ''red'')
     = Inr (Some (Json_text (PyDict [(''1'', PyDict [(''2'', PyList [button_config 5 ''x'' ''red''])])])))
   \<and> read_config (Some (Json_text (PyDict [(''1'', PyDict [(''2'', PyList [button_config 5 ''x'' ''red''])])])))
       = Inr (PyDict [(''1'', PyDict [(''2'', PyList [button_config 5 ''x'' ''red''])])])
   \<and> load_config py_int
        (Some (Json_text (PyDict [(''1'', PyDict [(''2'', PyList [button_config 5 ''x'' ''red''])])])))
        \<lparr>views = [], cogs = []\<rparr>
       = (\<lparr>views = [(2, [ReactionRoleButton (PyInt 5) (PyStr ''x'') danger])], cogs = []\<rparr>, None)
   \<and> save_config_interrupted None 1 2 (button_config 5 ''x'' ''red'') = Inr (Some Empty_text)
   \<and> load_config py_int (Some Empty_text) \<lparr>views = [], cogs = []\<rparr>
       = (\<lparr>views = [], cogs = []\<rparr>, Some JSONDecodeError)
   \<and> save_config (Some Empty_text) 1 3 (button_config 6 ''y'' ''green'') = Inl JSONDecodeError"
proof -
  let ?b = "button_config 5 ''x'' ''red''"
  let ?d = "[(''1'', PyDict [(''2'', PyList [?b])])]"
  have s: "save_config None 1 2 ?b = Inr (Some (Json_text (PyDict ?d)))"
    by code_simp
  have i: "save_config_interrupted None 1 2 ?b = Inr (Some Empty_text)"
    by code_simp
  have l: "load_guilds py_int ?d \<lparr>views = [], cogs = []\<rparr>
       = (\<lparr>views = [(2, [ReactionRoleButton (PyInt 5) (PyStr ''x'') danger])], cogs = []\<rparr>, None)"
    by code_simp
  from save_rewrites_in_place
      [where f = None and g = 1 and m = 2 and b = ?b and f' = "Some (Json_text (PyDict ?d))"
         and f'' = "Some Empty_text" and to_int = py_int and bt = "\<lparr>views = [], cogs = []\<rparr>"
         and ?g2.0 = 1 and ?m2.0 = 3 and ?b2.0 = "button_config 6 ''y'' ''green''"] s i l
  show ?thesis
    by auto
qed

section \<open>Reloading what was saved\<close>

text \<open>
  C7. The command accepts any colour string, shows a grey button for one it does not
  know, and saves the string as it is. \<^verbatim>\<open>load_config\<close> looks the string up with
  \<^verbatim>\<open>getattr\<close> and no default: the state that the command has just saved with the colour
  \<^verbatim>\<open>purple\<close> cannot be loaded again, the start of the cog ends in \<^verbatim>\<open>AttributeError\<close>.
\<close>

theorem unknown_colour_breaks_reload:
  "reaction_role py_int (None, \<lparr>views = [], cogs = []\<rparr>)
      (\<lambda>c. if c = 22 then Some (\<lambda>m. Inr []) else None) 0 None
      1 ''https://discord.com/channels/1/22/333'' 7 ''x'' (Some ''purple'')
    = ((Some (Json_text (PyDict [(''1'', PyDict [(''333'',
          PyList [button_config 7 ''x'' ''purple''])])])),
        \<lparr>views = [(333, [ReactionRoleButton (PyInt 7) (PyStr ''x'') secondary])], cogs = []\<rparr>),
       Reaction_Role_Added)
   \<and> setup_cog py_int (Some (Json_text (PyDict [(''1'', PyDict [(''333'',
          PyList [button_config 7 ''x'' ''purple''])])]))) \<lparr>views = [], cogs = []\<rparr>
    = (\<lparr>views = [], cogs = []\<rparr>, Some AttributeError)"
  by code_simp

section \<open>Buttons\<close>

text \<open>
  C3. The callback removes the role exactly when the role of the button is among the
  user's roles, and adds it otherwise; the decision depends on the role and the user's
  roles only, not on the emoji, the colour or the answer of Discord. With no roles the
  role is added, with just this role it is removed. (A user only has roles of the guild.)
\<close>

theorem callback_toggles:
  "((r \<in> set user_roles \<longrightarrow> r \<in> set guild) \<longrightarrow>
      map_sum id fst (callback (ReactionRoleButton (PyInt r) em colour) guild user_roles api)
        = Inr (if r \<in> set user_roles then remove_roles else add_roles))
   \<and> map_sum id fst (callback (ReactionRoleButton (PyInt r) em colour) guild [] api) = Inr add_roles
   \<and> (r \<in> set guild \<longrightarrow>
      map_sum id fst (callback (ReactionRoleButton (PyInt r) em colour) guild [r] api)
        = Inr remove_roles)"
  by (simp add: callback_def ReactionRoleButton_def)

theorem callback_toggles_witness:
  "5 \<in> set [5, 6::int] \<and> 5 \<in> set [5, 6, 7::int] \<and> 5 \<notin> set [6::int]
   \<and> map_sum id fst (callback (ReactionRoleButton (PyInt 5) (PyStr ''x'') danger) [5, 6, 7] [5, 6] None)
        = Inr remove_roles
   \<and> map_sum id fst (callback (ReactionRoleButton (PyInt 5) (PyStr ''x'') danger) [5, 6, 7] [6] None)
        = Inr add_roles
   \<and> map_sum id fst (callback (ReactionRoleButton (PyInt 5) (PyStr ''x'') danger) [5, 6, 7] [5] None)
        = Inr remove_roles"
  using callback_toggles [of 5 "[5, 6]" "[5, 6, 7]" "PyStr ''x''" danger None]
    callback_toggles [of 5 "[6]" "[5, 6, 7]" "PyStr ''x''" danger None]
  by simp

lemma button_ok_ReactionRoleButton:
  "custom_id (ReactionRoleButton rid em colour) = py_str (role_id (ReactionRoleButton rid em colour))"
  by (simp add: ReactionRoleButton_def)

lemma rebuild_ok:
  "rebuild to_int items view = Inr view' \<Longrightarrow> list_all (\<lambda>x. custom_id x = py_str (role_id x)) view
    \<Longrightarrow> list_all (\<lambda>x. custom_id x = py_str (role_id x)) view'"
  by (induction items arbitrary: view)
    (auto simp: button_ok_ReactionRoleButton split: option.splits)

lemma load_buttons_ok:
  "load_buttons bs view = Inr view' \<Longrightarrow> list_all (\<lambda>x. custom_id x = py_str (role_id x)) view
    \<Longrightarrow> list_all (\<lambda>x. custom_id x = py_str (role_id x)) view'"
  by (induction bs arbitrary: view)
    (auto simp: button_ok_ReactionRoleButton split: sum.splits)

lemma views_ok_add_view:
  "views_ok b \<Longrightarrow> list_all (\<lambda>x. custom_id x = py_str (role_id x)) view
    \<Longrightarrow> views_ok (add_view b view mid)"
  by (simp add: views_ok_def add_view_def)

lemma load_messages_ok: "views_ok b \<Longrightarrow> views_ok (fst (load_messages to_int ms b))"
proof (induction ms arbitrary: b)
  case Nil
  then show ?case by simp
next
  case (Cons a ms)
  obtain message_id buttons where a: "a = (message_id, buttons)" by (cases a)
  show ?case
  proof (cases "py_iter buttons")
    case (Inl e)
    with Cons.prems show ?thesis by (simp add: a)
  next
    case (Inr bs)
    show ?thesis
    proof (cases "load_buttons bs []")
      case (Inl e)
      with Cons.prems Inr show ?thesis by (simp add: a)
    next
      case view: (Inr view)
      from load_buttons_ok [OF view] have ok: "list_all (\<lambda>x. custom_id x = py_str (role_id x)) view"
        by simp
      show ?thesis
      proof (cases "to_int message_id")
        case None
        with Cons.prems Inr view show ?thesis by (simp add: a)
      next
        case (Some mid)
        from Cons.IH [OF views_ok_add_view [OF Cons.prems ok, of mid]] Inr view Some
        show ?thesis by (simp add: a)
      qed
    qed
  qed
qed

lemma load_guilds_ok: "views_ok b \<Longrightarrow> views_ok (fst (load_guilds to_int gs b))"
proof (induction gs arbitrary: b)
  case Nil
  then show ?case by simp
next
  case (Cons a gs)
  obtain guild_id messages where a: "a = (guild_id, messages)" by (cases a)
  show ?case
  proof (cases "py_items messages")
    case (Inl e)
    with Cons.prems show ?thesis by (simp add: a)
  next
    case (Inr ms)
    obtain b1 r where lm: "load_messages to_int ms b = (b1, r)" by (cases "load_messages to_int ms b")
    with load_messages_ok [OF Cons.prems, of to_int ms] have "views_ok b1" by simp
    with Cons.IH [of b1] Inr lm show ?thesis
      by (cases r) (simp_all add: a)
  qed
qed

lemma load_config_ok: "views_ok b \<Longrightarrow> views_ok (fst (load_config to_int f b))"
  by (auto simp: load_config_def load_guilds_ok split: option.splits sum.splits)

lemma reaction_role_ok:
  assumes "views_ok b"
  shows "views_ok (snd (fst (reaction_role to_int (f, b) known seed edit guild_id message_link rid em colour)))"
proof (cases "link_ids to_int message_link")
  case (Inl e)
  with assms show ?thesis by (simp add: reaction_role_def)
next
  case (Inr ids)
  obtain channel_id message_id where ids: "ids = (channel_id, message_id)" by (cases ids)
  show ?thesis
  proof (cases "known channel_id")
    case None
    with assms Inr ids show ?thesis by (simp add: reaction_role_def)
  next
    case (Some fetch_message)
    show ?thesis
    proof (cases "fetch_message message_id")
      case (Inl e)
      with assms Inr ids Some show ?thesis by (simp add: reaction_role_def)
    next
      case msg: (Inr msg)
      show ?thesis
      proof (cases "rebuild to_int (concat msg) []")
        case (Inl e)
        with assms Inr ids Some msg show ?thesis by (simp add: reaction_role_def)
      next
        case view0: (Inr view0)
        from rebuild_ok [OF view0]
        have "list_all (\<lambda>x. custom_id x = py_str (role_id x)) (view0 @ [ReactionRoleButton (PyInt rid) (PyStr em) st])"
          for st
          by (simp add: button_ok_ReactionRoleButton)
        from views_ok_add_view [OF assms this]
        have "views_ok (add_view b (view0 @ [ReactionRoleButton (PyInt rid) (PyStr em) st]) message_id)"
          for st .
        with Inr ids Some msg view0 show ?thesis
          by (simp add: reaction_role_def Let_def split: sum.split option.split)
      qed
    qed
  qed
qed

text \<open>
  C10. A button is constructed with \<^verbatim>\<open>custom_id = str(role_id)\<close>: for an integer role
  the trigger identifier is the decimal string of the role, from which \<^verbatim>\<open>int\<close> gets the
  role back. Two buttons have the same trigger identifier exactly when they toggle the
  same role, whatever their emoji and colour, and the callback does the same for both.
  Every view that \<^verbatim>\<open>load_config\<close> or the command registers keeps the property.
\<close>

theorem trigger_is_role_id:
  "custom_id (ReactionRoleButton rid em colour) = py_str rid
   \<and> role_id (ReactionRoleButton rid em colour) = rid
   \<and> custom_id (ReactionRoleButton (PyInt r) em colour) = str_int r
   \<and> py_int (custom_id (ReactionRoleButton (PyInt r) em colour)) = Some r
   \<and> (custom_id (ReactionRoleButton (PyInt r1) em1 colour1)
        = custom_id (ReactionRoleButton (PyInt r2) em2 colour2) \<longleftrightarrow> r1 = r2)
   \<and> callback (ReactionRoleButton (PyInt r) em1 colour1) guild user_roles api
        = callback (ReactionRoleButton (PyInt r) em2 colour2) guild user_roles api
   \<and> (views_ok b \<longrightarrow>
        views_ok (fst (load_config to_int f b))
        \<and> views_ok (snd (fst (reaction_role to_int (f, b) known seed edit guild_id message_link r em3 colour3))))"
proof -
  have id: "custom_id (ReactionRoleButton (PyInt i) e c) = str_int i" for i e c
    by (simp add: ReactionRoleButton_def py_str_def)
  have "custom_id (ReactionRoleButton rid em colour) = py_str rid"
    and "role_id (ReactionRoleButton rid em colour) = rid"
    by (simp_all add: ReactionRoleButton_def)
  moreover have "py_int (custom_id (ReactionRoleButton (PyInt r) em colour)) = Some r"
    by (simp add: id py_int_str_int)
  moreover have "custom_id (ReactionRoleButton (PyInt r1) em1 colour1)
        = custom_id (ReactionRoleButton (PyInt r2) em2 colour2) \<longleftrightarrow> r1 = r2"
    by (simp add: id str_int_inj)
  moreover have "callback (ReactionRoleButton (PyInt r) em1 colour1) guild user_roles api
        = callback (ReactionRoleButton (PyInt r) em2 colour2) guild user_roles api"
    by (simp add: callback_def ReactionRoleButton_def)
  ultimately show ?thesis
    using id [of r em colour] load_config_ok [of b to_int f]
      reaction_role_ok [of b to_int f known seed edit guild_id message_link r em3 colour3]
    by blast
qed

theorem trigger_is_role_id_witness:
  "views_ok \<lparr>views = [], cogs = []\<rparr>
   \<and> views_ok (fst (load_config py_int
        (Some (Json_text (PyDict [(''1'', PyDict [(''333'', PyList [button_config 7 ''x'' ''red''])])])))
        \<lparr>views = [], cogs = []\<rparr>))
   \<and> fst (load_config py_int
        (Some (Json_text (PyDict [(''1'', PyDict [(''333'', PyList [button_config 7 ''x'' ''red''])])])))
        \<lparr>views = [], cogs = []\<rparr>)
      = \<lparr>views = [(333, [\<lparr>style = danger, emoji = PyStr ''x'', custom_id = ''7'', role_id = PyInt 7\<rparr>])],
         cogs = []\<rparr>
   \<and> custom_id (ReactionRoleButton (PyInt 7) (PyStr ''x'') danger) = ''7''"
proof -
  let ?f = "Some (Json_text (PyDict [(''1'', PyDict [(''333'', PyList [button_config 7 ''x'' ''red''])])]))"
  have h: "views_ok \<lparr>views = [], cogs = []\<rparr>"
    by (simp add: views_ok_def)
  have l: "fst (load_config py_int ?f \<lparr>views = [], cogs = []\<rparr>)
      = \<lparr>views = [(333, [\<lparr>style = danger, emoji = PyStr ''x'', custom_id = ''7'', role_id = PyInt 7\<rparr>])],
         cogs = []\<rparr>"
    by code_simp
  have s: "str_int 7 = ''7''"
    by code_simp
  from trigger_is_role_id [of "PyInt 7" "PyStr ''x''" danger 7 7 "PyStr ''x''" danger 7 "PyStr ''x''" danger
      "[]" "[]" None "\<lparr>views = [], cogs = []\<rparr>" py_int ?f "\<lambda>c. None" 0 None 1 "''l''" "''x''" None] h l s
  show ?thesis
    by (simp add: py_str_def)
qed

section \<open>Sequences of additions\<close>

text \<open>A successful \<^verbatim>\<open>save_config\<close> keeps the trigger identifiers of every list
  pairwise different when the new one is not yet in the list of its guild and
  message.\<close>

lemma updated_config_unique:
  assumes r: "read_config f = Inr c" and uq: "unique_triggers c"
    and u: "updated_config f g m b = Inr c'"
    and new: "trigger_id b \<notin> set (map trigger_id (entries c (str_int g) (str_int m)))"
  shows "unique_triggers c'"
proof -
  let ?Q = "\<lambda>kw. case snd kw of PyList bs \<Rightarrow> distinct (map trigger_id bs) | _ \<Rightarrow> True"
  let ?P = "\<lambda>kv. case snd kv of PyDict md \<Rightarrow> list_all ?Q md | _ \<Rightarrow> True"
  from r u obtain d where c: "c = PyDict d"
    using updated_config_not_dict [of f c g m b] by (cases c) auto
  from uq c have d: "list_all ?P d" by (simp add: unique_triggers_def)
  note eq = updated_config_dict [OF r [unfolded c], of g m b]
  show ?thesis
  proof (cases "map_of d (str_int g)")
    case None
    have "?P (str_int g, PyDict [(str_int m, PyList [b])])" by simp
    from list_all_update [of ?P, OF d this] None eq u show ?thesis
      by (auto simp: unique_triggers_def)
  next
    case (Some v)
    with eq u obtain md where v: "v = PyDict md" by (cases v) auto
    from list_all_map_of [of ?P, OF d Some] v have md: "list_all ?Q md" by simp
    show ?thesis
    proof (cases "map_of md (str_int m)")
      case None
      have "?Q (str_int m, PyList [b])" by simp
      from list_all_update [of ?Q, OF md this]
      have "?P (str_int g, PyDict (AList.update (str_int m) (PyList [b]) md))" by simp
      from list_all_update [of ?P, OF d this] None \<open>map_of d (str_int g) = Some v\<close> v eq u
      show ?thesis by (auto simp: unique_triggers_def)
    next
      case w: (Some w)
      with eq u \<open>map_of d (str_int g) = Some v\<close> v obtain bs where bs: "w = PyList bs"
        by (cases w) auto
      from list_all_map_of [of ?Q, OF md w] bs have "distinct (map trigger_id bs)" by simp
      moreover from c \<open>map_of d (str_int g) = Some v\<close> v w bs
      have "entries c (str_int g) (str_int m) = bs"
        by (simp add: entries_def stored_dict)
      ultimately have "?Q (str_int m, PyList (bs @ [b]))" using new by simp
      from list_all_update [of ?Q, OF md this]
      have "?P (str_int g, PyDict (AList.update (str_int m) (PyList (bs @ [b])) md))" by simp
      from list_all_update [of ?P, OF d this] w bs \<open>map_of d (str_int g) = Some v\<close> v eq u
      show ?thesis by (auto simp: unique_triggers_def)
    qed
  qed
qed

lemma updated_config_entries:
  assumes "updated_config f g m b = Inr c'" and "read_config f = Inr c"
  shows "entries c' (str_int g') (str_int m') =
    (if g' = g \<and> m' = m then entries c (str_int g) (str_int m) @ [b]
     else entries c (str_int g') (str_int m'))"
proof -
  from updated_config_stored [OF assms(1)] assms(2)
  have 1: "stored c' (str_int g) (str_int m) = Some (PyList (entries c (str_int g) (str_int m) @ [b]))"
    and 2: "\<And>k l. (k, l) \<noteq> (str_int g, str_int m) \<Longrightarrow> stored c' k l = stored c k l"
    by auto
  show ?thesis
  proof (cases "g' = g \<and> m' = m")
    case True
    with 1 show ?thesis by (simp add: entries_def)
  next
    case False
    then have "(str_int g', str_int m') \<noteq> (str_int g, str_int m)"
      by (auto simp: str_int_inj)
    from 2 [OF this] False show ?thesis by (auto simp: entries_def)
  qed
qed

lemma save_config_tracks:
  assumes r: "read_config f = Inr c" and uq: "unique_triggers c"
    and tr: "\<And>g' m' x. x \<in> set (entries c (str_int g') (str_int m')) \<Longrightarrow>
           \<exists>r'. trigger_id x = Some (str_int r') \<and> (g', m', r') \<in> T"
    and new: "(g, m, r) \<notin> T"
    and s: "save_config f g m (button_config r em colour) = Inr f'"
  shows "\<exists>c'. read_config f' = Inr c' \<and> unique_triggers c'
    \<and> (\<forall>g' m' x. x \<in> set (entries c' (str_int g') (str_int m')) \<longrightarrow>
          (\<exists>r'. trigger_id x = Some (str_int r') \<and> (g', m', r') \<in> insert (g, m, r) T))"
proof -
  let ?b = "button_config r em colour"
  from s obtain c' where u: "updated_config f g m ?b = Inr c'" and f': "f' = Some (Json_text c')"
    by (auto simp: save_config_Inr)
  have "trigger_id ?b \<notin> set (map trigger_id (entries c (str_int g) (str_int m)))"
  proof
    assume "trigger_id ?b \<in> set (map trigger_id (entries c (str_int g) (str_int m)))"
    then obtain x where x: "x \<in> set (entries c (str_int g) (str_int m))"
      and "trigger_id x = Some (str_int r)"
      by auto
    with tr [OF x] have "(g, m, r) \<in> T" by (auto simp: str_int_inj)
    with new show False by contradiction
  qed
  from updated_config_unique [OF r uq u this] have "unique_triggers c'" .
  moreover have "\<exists>r'. trigger_id x = Some (str_int r') \<and> (g', m', r') \<in> insert (g, m, r) T"
    if "x \<in> set (entries c' (str_int g') (str_int m'))" for g' m' x
  proof (cases "g' = g \<and> m' = m")
    case True
    with that updated_config_entries [OF u r, of g' m']
    have "x \<in> set (entries c (str_int g) (str_int m)) \<or> x = ?b" by auto
    with tr [of x g m] True show ?thesis by auto
  next
    case False
    with that updated_config_entries [OF u r, of g' m']
    have "x \<in> set (entries c (str_int g') (str_int m'))" by auto
    with tr [of x g' m'] show ?thesis by auto
  qed
  ultimately show ?thesis using f' by (auto simp: read_config_def)
qed

text \<open>The command either leaves the file as it is or saves, with \<^verbatim>\<open>save_config\<close>, the
  button of its role under its guild and the message of its link.\<close>

lemma reaction_role_file:
  "fst (fst (reaction_role to_int st known seed edit g message_link rid em colour)) = fst st
   \<or> (\<exists>channel_id message_id colour1.
        link_ids to_int message_link = Inr (channel_id, message_id)
        \<and> save_config (fst st) g message_id (button_config rid em colour1)
            = Inr (fst (fst (reaction_role to_int st known seed edit g message_link rid em colour))))"
proof (cases "link_ids to_int message_link")
  case (Inl e)
  then show ?thesis by (simp add: reaction_role_def)
next
  case (Inr ids)
  obtain channel_id message_id where ids: "ids = (channel_id, message_id)" by (cases ids)
  show ?thesis
  proof (cases "known channel_id")
    case None
    with Inr ids show ?thesis by (simp add: reaction_role_def)
  next
    case (Some fetch_message)
    show ?thesis
    proof (cases "fetch_message message_id")
      case (Inl e)
      with Inr ids Some show ?thesis by (simp add: reaction_role_def)
    next
      case msg: (Inr msg)
      show ?thesis
      proof (cases "rebuild to_int (concat msg) []")
        case (Inl e)
        with Inr ids Some msg show ?thesis by (simp add: reaction_role_def)
      next
        case view0: (Inr view0)
        define colour1 where "colour1 =
          (case colour of None \<Rightarrow> random_choice [''red'', ''green'', ''blurple'', ''grey''] seed
           | Some c \<Rightarrow> c)"
        show ?thesis
        proof (cases "save_config (fst st) g message_id (button_config rid em colour1)")
          case (Inl e)
          with Inr ids Some msg view0 show ?thesis
            by (simp add: reaction_role_def Let_def colour1_def)
        next
          case f1: (Inr f1)
          with Inr ids Some msg view0
          have "fst (fst (reaction_role to_int st known seed edit g message_link rid em colour)) = f1"
            by (simp add: reaction_role_def Let_def colour1_def split: option.split)
          with f1 Inr ids show ?thesis by auto
        qed
      qed
    qed
  qed
qed

lemma map_filter_snoc:
  "List.map_filter h (xs @ [x]) =
    List.map_filter h xs @ (case h x of None \<Rightarrow> [] | Some y \<Rightarrow> [y])"
  by (simp add: List.map_filter_def split: option.split)

lemma run_snoc: "run to_int (ops @ [x]) = step to_int (run to_int ops) x"
  by (simp add: run_def)

lemma run_tracks:
  "distinct (List.map_filter (op_triple to_int) ops) \<Longrightarrow>
    \<exists>c. read_config (fst (run to_int ops)) = Inr c \<and> unique_triggers c
      \<and> (\<forall>g m x. x \<in> set (entries c (str_int g) (str_int m)) \<longrightarrow>
            (\<exists>r. trigger_id x = Some (str_int r) \<and> (g, m, r) \<in> set (List.map_filter (op_triple to_int) ops)))"
proof (induction ops rule: rev_induct)
  case Nil
  show ?case
    by (simp add: run_def read_config_def unique_triggers_def entries_def stored_def)
next
  case (snoc x ops)
  let ?T = "set (List.map_filter (op_triple to_int) ops)"
  let ?T' = "set (List.map_filter (op_triple to_int) (ops @ [x]))"
  from snoc.prems have dist: "distinct (List.map_filter (op_triple to_int) ops)"
    by (simp add: map_filter_snoc)
  from snoc.IH [OF dist] obtain c where r: "read_config (fst (run to_int ops)) = Inr c"
    and uq: "unique_triggers c"
    and tr: "\<And>g m x. x \<in> set (entries c (str_int g) (str_int m)) \<Longrightarrow>
           \<exists>r. trigger_id x = Some (str_int r) \<and> (g, m, r) \<in> ?T"
    by blast
  have sub: "?T \<subseteq> ?T'" by (auto simp: map_filter_snoc)
  have same: ?case if "fst (run to_int (ops @ [x])) = fst (run to_int ops)"
    using that r uq tr sub by (metis subsetD)
  have added: ?case
    if s: "save_config (fst (run to_int ops)) g m (button_config rid em colour) = Inr (fst (run to_int (ops @ [x])))"
      and t: "op_triple to_int x = Some (g, m, rid)" for g m rid em colour
  proof -
    from snoc.prems t have new: "(g, m, rid) \<notin> ?T" by (simp add: map_filter_snoc)
    from t have "?T' = insert (g, m, rid) ?T" by (simp add: map_filter_snoc)
    with save_config_tracks [OF r uq tr new s] show ?thesis by simp
  qed
  show ?case
  proof (cases x)
    case (Add b)
    obtain g m rid em colour where b: "b = (g, m, rid, em, colour)" by (cases b)
    show ?thesis
    proof (cases "add (fst (run to_int ops)) b")
      case (Inl e)
      with Add have "fst (run to_int (ops @ [x])) = fst (run to_int ops)" by (simp add: run_snoc)
      then show ?thesis by (rule same)
    next
      case (Inr f1)
      with Add b have "save_config (fst (run to_int ops)) g m (button_config rid em colour)
          = Inr (fst (run to_int (ops @ [x])))"
        by (simp add: run_snoc add_def)
      moreover from Add b have "op_triple to_int x = Some (g, m, rid)" by (simp add: triple_def)
      ultimately show ?thesis by (rule added)
    qed
  next
    case (Attach known seed edit g message_link rid em colour)
    then have fx: "fst (run to_int (ops @ [x]))
        = fst (fst (reaction_role to_int (run to_int ops) known seed edit g message_link rid em colour))"
      by (simp add: run_snoc)
    from reaction_role_file [of to_int "run to_int ops" known seed edit g message_link rid em colour]
    show ?thesis
    proof
      assume "fst (fst (reaction_role to_int (run to_int ops) known seed edit g message_link rid em colour))
          = fst (run to_int ops)"
      with fx have "fst (run to_int (ops @ [x])) = fst (run to_int ops)" by simp
      then show ?thesis by (rule same)
    next
      assume "\<exists>channel_id message_id colour1.
        link_ids to_int message_link = Inr (channel_id, message_id)
        \<and> save_config (fst (run to_int ops)) g message_id (button_config rid em colour1)
            = Inr (fst (fst (reaction_role to_int (run to_int ops) known seed edit g message_link rid em colour)))"
      then obtain channel_id message_id colour1 where
        l: "link_ids to_int message_link = Inr (channel_id, message_id)"
        and s: "save_config (fst (run to_int ops)) g message_id (button_config rid em colour1)
            = Inr (fst (fst (reaction_role to_int (run to_int ops) known seed edit g message_link rid em colour)))"
        by blast
      from s fx have "save_config (fst (run to_int ops)) g message_id (button_config rid em colour1)
            = Inr (fst (run to_int (ops @ [x])))" by simp
      moreover from Attach l have "op_triple to_int x = Some (g, message_id, rid)" by simp
      ultimately show ?thesis by (rule added)
    qed
  qed
qed

text \<open>
  C2, as the specification states it, asks that no reachable state holds a triple twice.
  Running the command twice for the same role on the same message reaches a state whose
  list holds two buttons with the trigger identifier \<open>7\<close>.
\<close>

theorem repeated_attach_counterexample:
  "read_config (fst (run py_int
      [Attach (\<lambda>c. if c = 22 then Some (\<lambda>m. Inr []) else None) 0 None
         1 ''https://discord.com/channels/1/22/333'' 7 ''x'' (Some ''red''),
       Attach (\<lambda>c. if c = 22 then Some (\<lambda>m. Inr []) else None) 0 None
         1 ''https://discord.com/channels/1/22/333'' 7 ''y'' (Some ''green'')]))
     = Inr (PyDict [(''1'', PyDict [(''333'',
         PyList [button_config 7 ''x'' ''red'', button_config 7 ''y'' ''green''])])])
   \<and> map trigger_id [button_config 7 ''x'' ''red'', button_config 7 ''y'' ''green'']
     = [Some ''7'', Some ''7'']
   \<and> \<not> unique_triggers (PyDict [(''1'', PyDict [(''333'',
         PyList [button_config 7 ''x'' ''red'', button_config 7 ''y'' ''green''])])])"
  by code_simp

text \<open>
  C2, amended. In every state reached from the empty state by direct additions and
  commands whose triples of guild, message and role are pairwise different, no list of a
  guild and message holds two entries with the same trigger identifier. The message of a
  command is the one \<^verbatim>\<open>int\<close> reads from its link, whatever the conversion accepts: two
  links that are read as the same message give the same triple.
\<close>

theorem distinct_triples_stay_unique:
  "distinct (List.map_filter (op_triple to_int) ops) \<Longrightarrow>
    \<exists>c. read_config (fst (run to_int ops)) = Inr c \<and> unique_triggers c"
  using run_tracks [of to_int ops] by blast

theorem distinct_triples_stay_unique_witness:
  "distinct (List.map_filter (op_triple py_int)
      [Add (1, 2, 3, ''x'', ''red''),
       Attach (\<lambda>c. if c = 22 then Some (\<lambda>m. Inr []) else None) 0 None
         1 ''https://discord.com/channels/1/22/2'' 4 ''y'' (Some ''green'')])
   \<and> read_config (fst (run py_int
      [Add (1, 2, 3, ''x'', ''red''),
       Attach (\<lambda>c. if c = 22 then Some (\<lambda>m. Inr []) else None) 0 None
         1 ''https://discord.com/channels/1/22/2'' 4 ''y'' (Some ''green'')]))
     = Inr (PyDict [(''1'', PyDict [(''2'',
         PyList [button_config 3 ''x'' ''red'', button_config 4 ''y'' ''green''])])])
   \<and> unique_triggers (PyDict [(''1'', PyDict [(''2'',
         PyList [button_config 3 ''x'' ''red'', button_config 4 ''y'' ''green''])])])"
proof -
  let ?ops = "[Add (1, 2, 3, ''x'', ''red''),
       Attach (\<lambda>c. if c = 22 then Some (\<lambda>m. Inr []) else None) 0 None
         1 ''https://discord.com/channels/1/22/2'' 4 ''y'' (Some ''green'')]"
  have d: "distinct (List.map_filter (op_triple py_int) ?ops)"
    by code_simp
  have r: "read_config (fst (run py_int ?ops))
     = Inr (PyDict [(''1'', PyDict [(''2'',
         PyList [button_config 3 ''x'' ''red'', button_config 4 ''y'' ''green''])])])"
    by code_simp
  from distinct_triples_stay_unique [OF d] r d show ?thesis
    by auto
qed

lemma add_all_entries:
  assumes "read_config f = Inr c" and "well_shaped c"
    and "\<And>g m. entries c (str_int g) (str_int m)
           = map binding_button (filter (\<lambda>y. fst y = g \<and> fst (snd y) = m) ys)"
  shows "\<exists>f' c'. add_all f xs = Inr f' \<and> read_config f' = Inr c' \<and> well_shaped c'
    \<and> (\<forall>g m. entries c' (str_int g) (str_int m)
           = map binding_button (filter (\<lambda>y. fst y = g \<and> fst (snd y) = m) (ys @ xs)))"
  using assms
proof (induction xs arbitrary: f c ys)
  case Nil
  then show ?case by simp
next
  case (Cons x xs)
  obtain g0 m0 r0 em colour where x: "x = (g0, m0, r0, em, colour)" by (cases x)
  let ?b = "button_config r0 em colour"
  from updated_config_well_shaped [OF Cons.prems(1,2), of g0 m0 ?b]
  obtain c1 where u: "updated_config f g0 m0 ?b = Inr c1" and w1: "well_shaped c1"
    by blast
  let ?f1 = "Some (Json_text c1)"
  from u have a: "add f x = Inr ?f1"
    by (simp add: add_def x save_config_Inr)
  have r1: "read_config ?f1 = Inr c1" by (simp add: read_config_def)
  have e1: "entries c1 (str_int g) (str_int m)
      = map binding_button (filter (\<lambda>y. fst y = g \<and> fst (snd y) = m) (ys @ [x]))" for g m
    using updated_config_entries [OF u Cons.prems(1), of g m] Cons.prems(3)
    by (auto simp: x binding_button_def)
  from Cons.IH [OF r1 w1 e1] a show ?case by simp
qed

lemma find_binding:
  assumes "distinct (map triple zs)" and "(g, m, r, em, colour) \<in> set zs"
  shows "find (\<lambda>b. trigger_id b = Some (str_int r))
      (map binding_button (filter (\<lambda>y. fst y = g \<and> fst (snd y) = m) zs))
    = Some (button_config r em colour)"
  using assms
proof (induction zs)
  case Nil
  then show ?case by simp
next
  case (Cons y zs)
  obtain g1 m1 r1 em1 colour1 where y: "y = (g1, m1, r1, em1, colour1)" by (cases y)
  show ?case
  proof (cases "g1 = g \<and> m1 = m \<and> r1 = r")
    case True
    have "y = (g, m, r, em, colour)"
    proof (rule ccontr)
      assume "y \<noteq> (g, m, r, em, colour)"
      with Cons.prems(2) have "(g, m, r, em, colour) \<in> set zs" by simp
      then have "triple (g, m, r, em, colour) \<in> set (map triple zs)" by (simp add: image_iff) blast
      with Cons.prems(1) True y show False by (simp add: triple_def)
    qed
    then show ?thesis by (simp add: binding_button_def)
  next
    case False
    with Cons.prems(2) y have "(g, m, r, em, colour) \<in> set zs" by auto
    with Cons.IH Cons.prems(1) have "find (\<lambda>b. trigger_id b = Some (str_int r))
      (map binding_button (filter (\<lambda>y. fst y = g \<and> fst (snd y) = m) zs))
      = Some (button_config r em colour)" by simp
    moreover have "binding_button y = button_config r1 em1 colour1"
      by (simp add: binding_button_def y)
    ultimately show ?thesis using False y
      by (auto simp: str_int_inj)
  qed
qed

text \<open>
  C6. Starting without a file, a sequence of additions with pairwise different triples
  of guild, message and role succeeds call by call, and afterwards the lookup of each
  triple returns the binding that was added for it.
\<close>

theorem distinct_adds_succeed:
  assumes "distinct (map triple xs)"
  shows "\<exists>f. add_all None xs = Inr f
    \<and> (\<forall>x \<in> set xs. case x of (g, m, r, em, colour) \<Rightarrow>
          lookup f g m (str_int r) = Some (button_config r em colour))"
proof -
  have "read_config None = Inr (PyDict [])" "well_shaped (PyDict [])"
    and "\<And>g m. entries (PyDict []) (str_int g) (str_int m)
           = map binding_button (filter (\<lambda>y. fst y = g \<and> fst (snd y) = m) [])"
    by (simp_all add: read_config_def well_shaped_def entries_def stored_def)
  from add_all_entries [OF this, of xs]
  obtain f c where a: "add_all None xs = Inr f" and r: "read_config f = Inr c"
    and e: "\<And>g m. entries c (str_int g) (str_int m)
           = map binding_button (filter (\<lambda>y. fst y = g \<and> fst (snd y) = m) xs)"
    by auto
  have "lookup f g m (str_int r) = Some (button_config r em colour)"
    if "(g, m, r, em, colour) \<in> set xs" for g m r em colour
    using find_binding [OF assms that] r e [of g m]
    by (simp add: lookup_def file_entries_def)
  with a show ?thesis by auto
qed

theorem distinct_adds_succeed_witness:
  "distinct (map triple [(1, 2, 3, ''x'', ''red''), (1, 2, 4, ''y'', ''green''), (1, 5, 3, ''z'', ''grey'')])
   \<and> (\<exists>f. add_all None [(1, 2, 3, ''x'', ''red''), (1, 2, 4, ''y'', ''green''), (1, 5, 3, ''z'', ''grey'')]
          = Inr f
        \<and> lookup f 1 2 (str_int 3) = Some (button_config 3 ''x'' ''red'')
        \<and> lookup f 1 2 (str_int 4) = Some (button_config 4 ''y'' ''green'')
        \<and> lookup f 1 5 (str_int 3) = Some (button_config 3 ''z'' ''grey''))"
proof -
  have d: "distinct (map triple [(1, 2, 3, ''x'', ''red''), (1, 2, 4, ''y'', ''green''), (1, 5, 3, ''z'', ''grey'')])"
    by (simp add: triple_def)
  from distinct_adds_succeed [OF d] d show ?thesis
    by auto
qed

end
